theory Spec2Isabelle
  imports Main "HOL-Library.Sublist"
begin

section \<open>Python strings\<close>

text \<open>
  A Python \<open>str\<close> is modelled as a \<open>string\<close> whose characters are code points below
  256. The character classes are those of Python 3 on that range: \<open>\s\<close>, \<open>str.strip()\<close>
  and \<open>str.split()\<close> use \<open>str.isspace\<close>, \<open>\d\<close> is \<open>[0-9]\<close>, and \<open>str.lower\<close> also
  lowers the Latin-1 capitals.
\<close>

definition ord :: "char \<Rightarrow> nat" where
  "ord c = of_char c"

definition chr :: "nat \<Rightarrow> char" where
  "chr n = char_of n"

definition ascii_lowercase :: string where
  "ascii_lowercase = ''abcdefghijklmnopqrstuvwxyz''"

definition ascii_uppercase :: string where
  "ascii_uppercase = ''ABCDEFGHIJKLMNOPQRSTUVWXYZ''"

definition digits :: string where
  "digits = ''0123456789''"

definition isspace :: "char \<Rightarrow> bool" where
  "isspace c = (ord c \<in> {9, 10, 11, 12, 13, 28, 29, 30, 31, 32, 133, 160})"

definition isalpha_char :: "char \<Rightarrow> bool" where
  "isalpha_char c =
     (c \<in> set ascii_lowercase \<or> c \<in> set ascii_uppercase \<or> ord c \<in> {170, 181, 186}
      \<or> (192 \<le> ord c \<and> ord c \<noteq> 215 \<and> ord c \<noteq> 247))"

definition isalpha :: "string \<Rightarrow> bool" where
  "isalpha s = (s \<noteq> [] \<and> list_all isalpha_char s)"

definition lower_char :: "char \<Rightarrow> char" where
  "lower_char c =
     (if c \<in> set ascii_uppercase \<or> (192 \<le> ord c \<and> ord c \<le> 222 \<and> ord c \<noteq> 215)
      then chr (ord c + 32) else c)"

definition lower :: "string \<Rightarrow> string" where
  "lower s = map lower_char s"

text \<open>
  \<open>upper\<close> is only ever applied to the first character of a part that
  \<open>_sanitize_property_name\<close> has already reduced to \<open>[a-zA-Z0-9_]\<close>, where \<open>str.upper\<close>
  changes the ASCII lowercase letters only.
\<close>

definition upper_char :: "char \<Rightarrow> char" where
  "upper_char c = (if c \<in> set ascii_lowercase then chr (ord c - 32) else c)"

definition upper :: "string \<Rightarrow> string" where
  "upper s = map upper_char s"

text \<open>\<open>s.strip()\<close> and \<open>s.strip(chars)\<close>.\<close>

definition strip :: "string \<Rightarrow> string" where
  "strip s = rev (dropWhile isspace (rev (dropWhile isspace s)))"

definition strip_chars :: "string \<Rightarrow> string \<Rightarrow> string" where
  "strip_chars chars s =
     rev (dropWhile (\<lambda>c. c \<in> set chars) (rev (dropWhile (\<lambda>c. c \<in> set chars) s)))"

text \<open>\<open>s.split()\<close>: the maximal runs of non-whitespace characters.\<close>

fun split_from :: "string \<Rightarrow> string \<Rightarrow> string list" where
  "split_from cur [] = (if cur = [] then [] else [cur])"
| "split_from cur (c # cs) =
     (if isspace c then (if cur = [] then split_from [] cs else cur # split_from [] cs)
      else split_from (cur @ [c]) cs)"

definition split :: "string \<Rightarrow> string list" where
  "split s = split_from [] s"

text \<open>\<open>sep.join(xs)\<close>.\<close>

fun join :: "string \<Rightarrow> string list \<Rightarrow> string" where
  "join sep [] = []"
| "join sep [x] = x"
| "join sep (x # y # ys) = x @ sep @ join sep (y # ys)"

text \<open>\<open>str(n)\<close> for a non-negative integer, and \<open>int(s)\<close> for a string of digits.\<close>

definition digit_char :: "nat \<Rightarrow> char" where
  "digit_char d = digits ! d"

function str_nat :: "nat \<Rightarrow> string" where
  "str_nat n = (if n < 10 then [digit_char n] else str_nat (n div 10) @ [digit_char (n mod 10)])"
  by pat_completeness auto
termination
  by (relation "measure id") auto

declare str_nat.simps [simp del]

definition int_of_digits :: "string \<Rightarrow> int" where
  "int_of_digits s = foldl (\<lambda>n c. 10 * n + (int (ord c) - 48)) 0 s"

text \<open>
  \<open>re.sub(r'[P]+', r, s)\<close> for a character class \<open>P\<close>: every maximal run of characters of the
  class is replaced by \<open>r\<close>.
\<close>

function sub_runs :: "(char \<Rightarrow> bool) \<Rightarrow> string \<Rightarrow> string \<Rightarrow> string" where
  "sub_runs P r [] = []"
| "sub_runs P r (c # cs) =
     (if P c then r @ sub_runs P r (dropWhile P cs) else c # sub_runs P r cs)"
  by pat_completeness auto
termination
  by (relation "measure (\<lambda>(P, r, s). length s)") (auto simp: length_dropWhile_le less_Suc_eq_le)

text \<open>
  \<open>re.sub(r'<[^>]+>', '', s)\<close>: at a \<open><\<close>, the class takes every character up to the next
  \<open>>\<close>; the tag is deleted when that run is not empty and a \<open>>\<close> follows it.
\<close>

function strip_tags :: "string \<Rightarrow> string" where
  "strip_tags [] = []"
| "strip_tags (c # cs) =
     (if c = CHR ''<'' \<and> takeWhile (\<lambda>x. x \<noteq> CHR ''>'') cs \<noteq> []
         \<and> dropWhile (\<lambda>x. x \<noteq> CHR ''>'') cs \<noteq> []
      then strip_tags (tl (dropWhile (\<lambda>x. x \<noteq> CHR ''>'') cs))
      else c # strip_tags cs)"
  by pat_completeness auto
termination
proof (relation "measure length")
  show "wf (measure length)" by simp
next
  fix c :: char and cs :: string
  have "length (tl (dropWhile (\<lambda>x. x \<noteq> CHR ''>'') cs)) \<le> length cs"
    using length_dropWhile_le[of "\<lambda>x. x \<noteq> CHR ''>''" cs] by simp
  then show "(tl (dropWhile (\<lambda>x. x \<noteq> CHR ''>'') cs), c # cs) \<in> measure length" by simp
next
  fix c :: char and cs :: string
  show "(cs, c # cs) \<in> measure length" by simp
qed

text \<open>The end of the pattern, \<open>$\<close>: the end of the string, or just before a final newline.\<close>

definition at_end :: "string \<Rightarrow> bool" where
  "at_end rest = (rest = [] \<or> rest = [CHR 0x0A])"

definition is_digit :: "char \<Rightarrow> bool" where
  "is_digit c = (c \<in> set digits)"

text \<open>\<open>re.match(r'^N\d+$', t)\<close>\<close>

definition match_N_int :: "string \<Rightarrow> bool" where
  "match_N_int t =
     (case t of
        c # r \<Rightarrow> c = CHR ''N'' \<and> takeWhile is_digit r \<noteq> [] \<and> at_end (dropWhile is_digit r)
      | [] \<Rightarrow> False)"

text \<open>\<open>re.match(r'^N\d+[.,]\d+$', t)\<close>\<close>

definition match_N_dec :: "string \<Rightarrow> bool" where
  "match_N_dec t =
     (case t of
        c # r \<Rightarrow>
          c = CHR ''N'' \<and> takeWhile is_digit r \<noteq> [] \<and>
          (case dropWhile is_digit r of
             p # f \<Rightarrow> (p = CHR ''.'' \<or> p = CHR '','') \<and> takeWhile is_digit f \<noteq> []
                        \<and> at_end (dropWhile is_digit f)
           | [] \<Rightarrow> False)
      | [] \<Rightarrow> False)"

text \<open>\<open>re.match(r'^AN(\d+)$', t)\<close>, returning group 1.\<close>

definition match_AN :: "string \<Rightarrow> string option" where
  "match_AN t =
     (if take 2 t = ''AN'' \<and> takeWhile is_digit (drop 2 t) \<noteq> []
         \<and> at_end (dropWhile is_digit (drop 2 t))
      then Some (takeWhile is_digit (drop 2 t)) else None)"

text \<open>\<open>re.match(r'varchar2?\((\d+)\)', t_lower)\<close>, returning group 1.\<close>

definition match_varchar_len :: "string \<Rightarrow> string option" where
  "match_varchar_len t =
     (if take 7 t = ''varchar'' then
        (let r = drop 7 t;
             r = (if take 1 r = ''2'' then drop 1 r else r)
         in if take 1 r = ''('' \<and> takeWhile is_digit (drop 1 r) \<noteq> []
               \<and> take 1 (dropWhile is_digit (drop 1 r)) = '')''
            then Some (takeWhile is_digit (drop 1 r)) else None)
      else None)"

section \<open>JSON values and dicts\<close>

datatype json = JStr string | JInt int | JBool bool | JList "json list"
  | JObj "(string \<times> json) list"

type_synonym pydict = "(string \<times> json) list"

text \<open>
  A Python dict keeps its keys in insertion order; assigning to a key that is present keeps
  the key's position.
\<close>

definition dict_has :: "('k \<times> 'v) list \<Rightarrow> 'k \<Rightarrow> bool" where
  "dict_has d k = (k \<in> set (map fst d))"

definition dict_get :: "('k \<times> 'v) list \<Rightarrow> 'k \<Rightarrow> 'v option" where
  "dict_get d k = map_of d k"

fun dict_set :: "('k \<times> 'v) list \<Rightarrow> 'k \<Rightarrow> 'v \<Rightarrow> ('k \<times> 'v) list" where
  "dict_set [] k v = [(k, v)]"
| "dict_set ((k', v') # d) k v =
     (if k' = k then (k, v) # d else (k', v') # dict_set d k v)"

section \<open>Configuration\<close>

definition GGM_VERSION :: string where
  "GGM_VERSION = ''2.5.0''"

definition GITHUB_REPO :: string where
  "GITHUB_REPO = ''ConductionNL/ggm-openregister''"

definition GITHUB_BRANCH :: string where
  "GITHUB_BRANCH = ''main''"

record domain_info =
  d_name :: string
  d_slug :: string
  d_file :: string

definition DOMAIN_PACKAGES :: "(int \<times> domain_info) list" where
  "DOMAIN_PACKAGES =
    [(4, \<lparr>d_name = ''0 Bestuur, Politiek en Ondersteuning'', d_slug = ''ggm-bestuur-politiek'',
          d_file = ''0-bestuur-politiek.openregister.json''\<rparr>),
     (12, \<lparr>d_name = ''1 Veiligheid en Vergunningen'', d_slug = ''ggm-veiligheid-vergunningen'',
          d_file = ''1-veiligheid-vergunningen.openregister.json''\<rparr>),
     (15, \<lparr>d_name = ''2 Verkeer, Vervoer en Waterstaat'',
          d_slug = ''ggm-verkeer-vervoer-waterstaat'',
          d_file = ''2-verkeer-vervoer-waterstaat.openregister.json''\<rparr>),
     (22, \<lparr>d_name = ''3 Economie'', d_slug = ''ggm-economie'',
          d_file = ''3-economie.openregister.json''\<rparr>),
     (25, \<lparr>d_name = ''4 Onderwijs'', d_slug = ''ggm-onderwijs'',
          d_file = ''4-onderwijs.openregister.json''\<rparr>),
     (32, \<lparr>d_name = ''5 Sport, Cultuur en Recreatie'', d_slug = ''ggm-sport-cultuur-recreatie'',
          d_file = ''5-sport-cultuur-recreatie.openregister.json''\<rparr>),
     (52, \<lparr>d_name = ''6 Sociaal Domein'', d_slug = ''ggm-sociaal-domein'',
          d_file = ''6-sociaal-domein.openregister.json''\<rparr>),
     (91, \<lparr>d_name = ''7 Volksgezondheid en Milieu'', d_slug = ''ggm-volksgezondheid-milieu'',
          d_file = ''7-volksgezondheid-milieu.openregister.json''\<rparr>),
     (95, \<lparr>d_name = ''8 Volkshuisvesting, Leefomgeving en Stedelijke Vernieuwing'',
          d_slug = ''ggm-volkshuisvesting-leefomgeving'',
          d_file = ''8-volkshuisvesting-leefomgeving.openregister.json''\<rparr>),
     (114, \<lparr>d_name = ''9 Interne Organisatie'', d_slug = ''ggm-interne-organisatie'',
          d_file = ''9-interne-organisatie.openregister.json''\<rparr>),
     (135, \<lparr>d_name = ''10 Dienstverlening'', d_slug = ''ggm-dienstverlening'',
          d_file = ''10-dienstverlening.openregister.json''\<rparr>),
     (367, \<lparr>d_name = ''99 Kern'', d_slug = ''ggm-kern'',
          d_file = ''99-kern.openregister.json''\<rparr>)]"

section \<open>Type mapping\<close>

definition map_type :: "string option \<Rightarrow> int \<Rightarrow> pydict" where
  "map_type type_name len =
    (case type_name of
       None \<Rightarrow> [(''type'', JStr ''string'')]
     | Some tn \<Rightarrow>
        if tn = [] then [(''type'', JStr ''string'')] else
        (let t = strip tn; t_lower = lower t in
         if t_lower \<in> set [''boolean'', ''bool'', ''indic'', ''stdindijn'']
           then [(''type'', JStr ''boolean'')]
         else if t_lower \<in> set [''int'', ''integer'', ''number'']
           then [(''type'', JStr ''integer'')]
         else if match_N_int t
           then [(''type'', JStr ''integer'')]
         else if t_lower \<in> set [''double'', ''decimal'', ''float'']
           then [(''type'', JStr ''number'')]
         else if t_lower = ''bedrag'' \<or> t_lower = ''geldbedrag''
           then [(''type'', JStr ''number'')]
         else if match_N_dec t
           then [(''type'', JStr ''number'')]
         else if t_lower \<in> set [''date'', ''datum'']
           then [(''type'', JStr ''string''), (''format'', JStr ''date'')]
         else if t_lower \<in> set [''datetime'', ''datumtijd'']
           then [(''type'', JStr ''string''), (''format'', JStr ''date-time'')]
         else if t_lower = ''time''
           then [(''type'', JStr ''string''), (''format'', JStr ''time'')]
         else if t_lower \<in> set [''jaar'', ''year'']
           then [(''type'', JStr ''string''), (''format'', JStr ''date'')]
         else if t_lower = ''onvolledgedatum''
           then [(''type'', JStr ''string'')]
         else if t_lower \<in> set [''url'', ''uri'']
           then [(''type'', JStr ''string''), (''format'', JStr ''uri'')]
         else if t_lower = ''email''
           then [(''type'', JStr ''string''), (''format'', JStr ''email'')]
         else if t_lower = ''iban''
           then [(''type'', JStr ''string'')]
         else if t_lower = ''telefoonnummer''
           then [(''type'', JStr ''string'')]
         else if t_lower \<in> set [''point'', ''punt'', ''gm_point'', ''gm_punt'']
           then [(''type'', JStr ''string''), (''format'', JStr ''geo'')]
         else if t_lower \<in> set [''gm_surface'', ''gm_multisurface'', ''vlak'', ''spatial'',
                                ''gm_curve'', ''gm_lijn'', ''gm_multicurve'', ''gm_multipoint'',
                                ''multipuntlijn(multi)vlak'']
           then [(''type'', JStr ''string''), (''format'', JStr ''geo'')]
         else if t_lower = ''guid''
           then [(''type'', JStr ''string''), (''format'', JStr ''uuid'')]
         else if t_lower = ''blob''
           then [(''type'', JStr ''string''), (''format'', JStr ''binary'')]
         else if t_lower = ''image''
           then [(''type'', JStr ''string''), (''format'', JStr ''binary'')]
         else (case match_AN t of
             Some g \<Rightarrow> [(''type'', JStr ''string''), (''maxLength'', JInt (int_of_digits g))]
           | None \<Rightarrow>
         if prefix ''varchar'' t_lower then
           (case match_varchar_len t_lower of
              Some g \<Rightarrow> [(''type'', JStr ''string''), (''maxLength'', JInt (int_of_digits g))]
            | None \<Rightarrow> [(''type'', JStr ''string''), (''maxLength'', JInt 255)])
         else if t_lower \<in> set [''char'', ''characterstring'', ''string'', ''text'', ''tekst'',
                                ''tan'']
           then [(''type'', JStr ''string'')]
         else if List.length t \<le> 3 \<and> isalpha t
           then [(''type'', JStr ''string'')]
         else [(''type'', JStr ''string'')])))"

section \<open>Slugs\<close>

definition slugify :: "string \<Rightarrow> string" where
  "slugify name =
     (let s = lower name;
          s = filter (\<lambda>c. c \<in> set ascii_lowercase \<or> c \<in> set digits \<or> isspace c
                          \<or> c = CHR ''-'') s;
          s = sub_runs isspace ''-'' s;
          s = sub_runs (\<lambda>c. c = CHR ''-'') ''-'' s;
          s = strip_chars ''-'' s
      in s)"

definition camel_to_slug :: "string \<Rightarrow> string" where
  "camel_to_slug name =
     slugify (strip_chars ''-''
       (concat (map (\<lambda>c. if c \<in> set ascii_uppercase then [CHR ''-'', c] else [c]) name)))"

section \<open>Database access\<close>

text \<open>
  The rows of the four tables the source reads. A column the source guards against
  \<open>None\<close> (\<open>x or ""\<close>, a truth test) is an option; the others have the type the source
  uses them at. \<open>attr_Classifier\<close> is the object id the column holds (the value of
  \<open>int(classifier)\<close>), \<open>None\<close> when the column is NULL or blank. These are the rows
  on which no read raises; the section on the rows as the database returns them has the
  Name of an object and the Classifier of an attribute as column values, with the two
  reads that raise, and shows that the functions below are the source on such rows.
\<close>

record t_package =
  pkg_Package_ID :: int
  pkg_Name :: string
  pkg_Parent_ID :: int

record t_object =
  obj_Object_ID :: int
  obj_Name :: string
  obj_Object_Type :: string
  obj_Package_ID :: int
  obj_Stereotype :: "string option"
  obj_Note :: "string option"
  obj_ea_guid :: string

record t_attribute =
  attr_Object_ID :: int
  attr_Name :: string
  attr_Type :: "string option"
  attr_Classifier :: "int option"
  attr_LowerBound :: "string option"
  attr_UpperBound :: "string option"
  attr_Notes :: "string option"
  attr_Length :: "int option"
  attr_Default :: "string option"
  attr_Pos :: int

record t_connector =
  con_Connector_ID :: int
  con_Name :: "string option"
  con_Connector_Type :: string
  con_Start_Object_ID :: int
  con_End_Object_ID :: int
  con_SourceCard :: "string option"
  con_DestCard :: "string option"
  con_SourceRole :: "string option"
  con_DestRole :: "string option"

record database =
  tbl_package :: "t_package list"
  tbl_object :: "t_object list"
  tbl_attribute :: "t_attribute list"
  tbl_connector :: "t_connector list"

text \<open>
  \<open>_build_package_tree\<close>: \<open>package_children\<close> is a \<open>defaultdict(list)\<close>, a total function
  with default \<open>[]\<close>; each row appends its id to the list of its parent.
\<close>

definition package_children :: "database \<Rightarrow> int \<Rightarrow> int list" where
  "package_children db =
     foldl (\<lambda>m row. m(pkg_Parent_ID row := m (pkg_Parent_ID row) @ [pkg_Package_ID row]))
       (\<lambda>_. []) (tbl_package db)"

text \<open>\<open>_build_object_cache\<close>: the rows by id, a later row replacing an earlier one.\<close>

definition objects :: "database \<Rightarrow> int \<Rightarrow> t_object option" where
  "objects db = foldl (\<lambda>m row. m(obj_Object_ID row \<mapsto> row)) Map.empty (tbl_object db)"

text \<open>
  \<open>_build_enum_cache\<close>: for every object of type Enumeration, the names of its attribute
  rows in \<open>Pos\<close> order (rows of equal \<open>Pos\<close> in table order).
\<close>

definition enums :: "database \<Rightarrow> int \<Rightarrow> string list option" where
  "enums db =
     foldl (\<lambda>m eid. m(eid \<mapsto>
               map attr_Name (sort_key attr_Pos
                 (filter (\<lambda>a. attr_Object_ID a = eid) (tbl_attribute db)))))
       Map.empty
       (map obj_Object_ID (filter (\<lambda>row. obj_Object_Type row = ''Enumeration'') (tbl_object db)))"

text \<open>
  \<open>get_descendant_packages\<close> calls itself once for each child. \<open>limit\<close> is the number of
  nested calls the interpreter still allows (Python's recursion limit); \<open>None\<close> is the
  \<open>RecursionError\<close> raised when they are used up.
\<close>

fun get_descendant_packages :: "nat \<Rightarrow> database \<Rightarrow> int \<Rightarrow> int list option" where
  "get_descendant_packages 0 db parent_id = None"
| "get_descendant_packages (Suc limit) db parent_id =
     map_option (\<lambda>results. parent_id # concat results)
       (those (map (get_descendant_packages limit db) (package_children db parent_id)))"

definition get_classes_in_packages :: "database \<Rightarrow> int list \<Rightarrow> t_object list" where
  "get_classes_in_packages db package_ids =
     filter (\<lambda>row. obj_Object_Type row = ''Class'' \<and> obj_Stereotype row = Some ''Objecttype''
                    \<and> obj_Package_ID row \<in> set package_ids) (tbl_object db)"

definition get_enumerations_in_packages :: "database \<Rightarrow> int list \<Rightarrow> t_object list" where
  "get_enumerations_in_packages db package_ids =
     filter (\<lambda>row. obj_Object_Type row = ''Enumeration''
                    \<and> obj_Package_ID row \<in> set package_ids) (tbl_object db)"

definition get_attributes :: "database \<Rightarrow> int \<Rightarrow> t_attribute list" where
  "get_attributes db object_id =
     sort_key attr_Pos (filter (\<lambda>a. attr_Object_ID a = object_id) (tbl_attribute db))"

definition get_associations_for_object :: "database \<Rightarrow> int \<Rightarrow> t_connector list" where
  "get_associations_for_object db object_id =
     filter (\<lambda>c. con_Connector_Type c \<in> set [''Association'', ''Aggregation'']
                  \<and> (con_Start_Object_ID c = object_id \<or> con_End_Object_ID c = object_id))
       (tbl_connector db)"

definition get_generalizations_for_object :: "database \<Rightarrow> int \<Rightarrow> int list" where
  "get_generalizations_for_object db object_id =
     map con_End_Object_ID
       (filter (\<lambda>c. con_Connector_Type c = ''Generalization''
                     \<and> con_Start_Object_ID c = object_id) (tbl_connector db))"

section \<open>Generator\<close>

record generator =
  g_db :: database
  object_domain_map :: "int \<Rightarrow> int option"
  object_slug_map :: "int \<Rightarrow> string option"
  domain_slug_map :: "int \<Rightarrow> string option"

text \<open>\<open>__init__\<close>: the loop over the classes of one domain, then the loop over the domains.\<close>

definition index_classes :: "int \<Rightarrow> t_object list \<Rightarrow> generator \<Rightarrow> generator" where
  "index_classes pkg_id classes g =
     foldl (\<lambda>g cls. g\<lparr>object_domain_map := (object_domain_map g)(obj_Object_ID cls \<mapsto> pkg_id),
                       object_slug_map :=
                         (object_slug_map g)(obj_Object_ID cls \<mapsto> slugify (obj_Name cls))\<rparr>)
       g classes"

fun index_domains :: "nat \<Rightarrow> (int \<times> domain_info) list \<Rightarrow> generator \<Rightarrow> generator option" where
  "index_domains limit [] g = Some g"
| "index_domains limit ((pkg_id, info) # rest) g =
     (let g = g\<lparr>domain_slug_map := (domain_slug_map g)(pkg_id \<mapsto> d_slug info)\<rparr> in
      case get_descendant_packages limit (g_db g) pkg_id of
        None \<Rightarrow> None
      | Some descendant_ids \<Rightarrow>
          index_domains limit rest
            (index_classes pkg_id (get_classes_in_packages (g_db g) descendant_ids) g))"

definition generator_init :: "nat \<Rightarrow> database \<Rightarrow> generator option" where
  "generator_init limit db =
     index_domains limit DOMAIN_PACKAGES
       \<lparr>g_db = db, object_domain_map = Map.empty, object_slug_map = Map.empty,
        domain_slug_map = Map.empty\<rparr>"

text \<open>\<open>_sanitize_property_name\<close>\<close>

definition sanitize_property_name :: "string \<Rightarrow> string" where
  "sanitize_property_name name =
     (if name = [] then [] else
      (let name = strip name;
           name = filter (\<lambda>c. c \<in> set ascii_lowercase \<or> c \<in> set ascii_uppercase
                              \<or> c \<in> set digits \<or> isspace c \<or> c = CHR ''_'') name;
           parts = split name
       in case parts of
            [] \<Rightarrow> []
          | p # ps \<Rightarrow>
              foldl (\<lambda>result part. result @ upper (take 1 part) @ drop 1 part)
                (lower (take 1 p) @ drop 1 p) ps))"

text \<open>\<open>x or ""\<close> for a nullable text column.\<close>

definition or_empty :: "string option \<Rightarrow> string" where
  "or_empty x = (case x of None \<Rightarrow> [] | Some s \<Rightarrow> s)"

text \<open>\<open>_map_attribute\<close>. The argument \<open>local_enums\<close> is passed and never read.\<close>

definition map_attribute ::
  "generator \<Rightarrow> t_attribute \<Rightarrow> (int \<Rightarrow> string list option) \<Rightarrow> pydict" where
  "map_attribute g attr local_enums =
     (let attr_name = attr_Name attr;
          attr_type = attr_Type attr;
          classifier = attr_Classifier attr;
          notes = strip (strip_tags (or_empty (attr_Notes attr)));
          default_val = attr_Default attr;
          standard =
            (let prop = map_type attr_type 0;
                 prop = dict_set prop ''title'' (JStr attr_name);
                 prop = (if notes \<noteq> [] then dict_set prop ''description'' (JStr notes) else prop);
                 prop = (if or_empty default_val \<noteq> [] \<and> strip (or_empty default_val) \<noteq> []
                         then dict_set prop ''default'' (JStr (strip (or_empty default_val)))
                         else prop)
             in prop)
      in case classifier of
           None \<Rightarrow> standard
         | Some classifier_id \<Rightarrow>
             if classifier_id = 0 then standard
             else (case enums (g_db g) classifier_id of
                 Some literals \<Rightarrow>
                   (let prop = [(''type'', JStr ''string''), (''title'', JStr attr_name)];
                        prop = (if notes \<noteq> [] then dict_set prop ''description'' (JStr notes)
                                else prop);
                        prop = (if literals \<noteq> []
                                then dict_set prop ''enum'' (JList (map JStr literals)) else prop)
                    in prop)
               | None \<Rightarrow>
                   (case objects (g_db g) classifier_id of
                      Some obj \<Rightarrow>
                        if obj_Object_Type obj = ''DataType'' then
                          (let prop = map_type attr_type 0;
                               prop = dict_set prop ''title'' (JStr attr_name);
                               prop = (if notes \<noteq> []
                                       then dict_set prop ''description'' (JStr notes) else prop)
                           in prop)
                        else standard
                    | None \<Rightarrow> standard)))"

text \<open>
  \<open>_map_association\<close>. A truth test on a nullable text column holds when the column is
  neither NULL nor empty.
\<close>

definition truthy :: "string option \<Rightarrow> bool" where
  "truthy x = (or_empty x \<noteq> [])"

definition map_association ::
  "generator \<Rightarrow> t_connector \<Rightarrow> int \<Rightarrow> (string \<times> pydict) option" where
  "map_association g assoc source_obj_id =
     (let start_id = con_Start_Object_ID assoc;
          end_id = con_End_Object_ID assoc;
          assoc_name = or_empty (con_Name assoc);
          (target_id, cardinality, role) =
            (if start_id = source_obj_id
             then (end_id, con_DestCard assoc,
                   if truthy (con_DestRole assoc) then or_empty (con_DestRole assoc)
                   else assoc_name)
             else (start_id, con_SourceCard assoc,
                   if truthy (con_SourceRole assoc) then or_empty (con_SourceRole assoc)
                   else assoc_name))
      in case object_slug_map g target_id of
           None \<Rightarrow> None
         | Some target_slug \<Rightarrow>
            (let target_domain_id = object_domain_map g target_id;
                 target_register =
                   (case target_domain_id of
                      None \<Rightarrow> []
                    | Some d \<Rightarrow> (case domain_slug_map g d of None \<Rightarrow> [] | Some r \<Rightarrow> r));
                 prop_name = sanitize_property_name (if role \<noteq> [] then role else target_slug);
                 prop_name = (if prop_name = [] then target_slug else prop_name);
                 card_str = or_empty cardinality;
                 is_multiple =
                   (truthy cardinality \<and>
                    (CHR ''*'' \<in> set card_str \<or>
                     sublist ''..'' card_str \<and> \<not> suffix ''..1'' card_str));
                 is_multiple =
                   (if truthy cardinality then
                      (if card_str \<in> set [''0..*'', ''1..*'', ''*''] then True
                       else if card_str \<in> set [''0..1'', ''1'', ''1..1''] then False
                       else is_multiple)
                    else is_multiple);
                 prop =
                   (if is_multiple then
                      [(''type'', JStr ''array''), (''title'', JStr prop_name),
                       (''items'', JObj [(''type'', JStr ''object''), (''$ref'', JStr target_slug)])]
                    else
                      [(''type'', JStr ''object''), (''title'', JStr prop_name),
                       (''$ref'', JStr target_slug)])
             in Some (prop_name, prop)))"

text \<open>
  The schema dict built by \<open>_generate_schema\<close> has eight fixed keys; it is a record here, and
  \<open>schema_items\<close> lists the items of the dict. A truth test on a dict holds when the dict
  has an item.
\<close>

record schema =
  s_slug :: string
  s_title :: string
  s_version :: string
  s_description :: string
  s_required :: "string list"
  s_properties :: "(string \<times> pydict) list"
  s_searchable :: bool
  s_hardValidation :: bool

definition schema_items :: "schema \<Rightarrow> pydict" where
  "schema_items s =
     [(''slug'', JStr (s_slug s)), (''title'', JStr (s_title s)),
      (''version'', JStr (s_version s)), (''description'', JStr (s_description s)),
      (''required'', JList (map JStr (s_required s))),
      (''properties'', JObj (map (\<lambda>(k, v). (k, JObj v)) (s_properties s))),
      (''searchable'', JBool (s_searchable s)),
      (''hardValidation'', JBool (s_hardValidation s))]"

text \<open>The body of the loop over the attributes, on the pair \<open>(properties, required)\<close>.\<close>

definition attribute_step ::
  "generator \<Rightarrow> (int \<Rightarrow> string list option) \<Rightarrow> (string \<times> pydict) list \<times> string list
     \<Rightarrow> t_attribute \<Rightarrow> (string \<times> pydict) list \<times> string list" where
  "attribute_step g local_enums st attr =
     (let (properties, required) = st;
          prop = map_attribute g attr local_enums
      in if prop \<noteq> [] then
           (let prop_name = sanitize_property_name (attr_Name attr);
                properties = dict_set properties prop_name prop;
                lower = attr_LowerBound attr;
                required = (if truthy lower \<and> or_empty lower \<notin> set [''0'', '''']
                            then required @ [prop_name] else required)
            in (properties, required))
         else (properties, required))"

text \<open>The body of the loop over the associations, on \<open>properties\<close>.\<close>

definition association_step ::
  "generator \<Rightarrow> int \<Rightarrow> (string \<times> pydict) list \<Rightarrow> t_connector \<Rightarrow> (string \<times> pydict) list" where
  "association_step g obj_id properties assoc =
     (case map_association g assoc obj_id of
        None \<Rightarrow> properties
      | Some (prop_name, prop_def) \<Rightarrow>
          if \<not> dict_has properties prop_name then dict_set properties prop_name prop_def
          else properties)"

text \<open>\<open>_generate_schema\<close>\<close>

definition generate_schema ::
  "generator \<Rightarrow> t_object \<Rightarrow> (int \<Rightarrow> string list option) \<Rightarrow> schema" where
  "generate_schema g cls local_enums =
     (let obj_id = obj_Object_ID cls;
          name = obj_Name cls;
          slug = slugify name;
          note = strip (strip_tags (or_empty (obj_Note cls)));
          attributes = get_attributes (g_db g) obj_id;
          (properties, required) = foldl (attribute_step g local_enums) ([], []) attributes;
          associations = get_associations_for_object (g_db g) obj_id;
          properties = foldl (association_step g obj_id) properties associations;
          description = (if note \<noteq> [] then note else ''GGM entity: '' @ name);
          parent_ids = get_generalizations_for_object (g_db g) obj_id;
          parent_names = List.map_filter (object_slug_map g) parent_ids;
          description = (if parent_ids \<noteq> [] \<and> parent_names \<noteq> []
                         then description @ '' Extends: '' @ join '', '' parent_names @ ''.''
                         else description)
      in \<lparr>s_slug = slug, s_title = name, s_version = GGM_VERSION, s_description = description,
          s_required = required, s_properties = properties, s_searchable = True,
          s_hardValidation = False\<rparr>)"

text \<open>\<open>_generate_domain\<close>\<close>

record register =
  reg_slug :: string
  reg_title :: string
  reg_version :: string
  reg_description :: string
  reg_schemas :: "string list"
  reg_source :: string

text \<open>
  The envelope; \<open>cfg_schemas\<close> and \<open>cfg_registers\<close> are the two dicts under
  \<open>components\<close>.
\<close>

record config =
  cfg_openapi :: string
  cfg_info :: pydict
  cfg_x_openregister :: pydict
  cfg_schemas :: "(string \<times> schema) list"
  cfg_registers :: "(string \<times> register) list"

lemma digits_distinct: "distinct digits"
  by (simp add: digits_def)

lemma str_nat_nonempty: "str_nat n \<noteq> []"
  by (subst str_nat.simps) simp

lemma str_nat_inj: "str_nat m = str_nat n \<Longrightarrow> m = n"
proof (induction m arbitrary: n rule: str_nat.induct)
  case (1 m)
  show ?case
  proof (cases "m < 10")
    case True
    note m = this
    show ?thesis
    proof (cases "n < 10")
      case True
      from "1.prems" m True have "digits ! m = digits ! n"
        by (subst (asm) str_nat.simps, subst (asm) (2) str_nat.simps) (simp add: digit_char_def)
      moreover have "m < length digits" "n < length digits"
        using m True by (simp_all add: digits_def)
      ultimately show ?thesis using digits_distinct by (simp add: nth_eq_iff_index_eq)
    next
      case False
      from "1.prems" m False have "[digit_char m] = str_nat (n div 10) @ [digit_char (n mod 10)]"
        by (subst (asm) str_nat.simps, subst (asm) (2) str_nat.simps) simp
      then have "str_nat (n div 10) = []" by (metis append_is_Nil_conv butlast.simps(2) butlast_snoc)
      with str_nat_nonempty show ?thesis by blast
    qed
  next
    case False
    note m = this
    show ?thesis
    proof (cases "n < 10")
      case True
      from "1.prems" m True have "str_nat (m div 10) @ [digit_char (m mod 10)] = [digit_char n]"
        by (subst (asm) str_nat.simps, subst (asm) (2) str_nat.simps) simp
      then have "str_nat (m div 10) = []" by (metis append_is_Nil_conv butlast.simps(2) butlast_snoc)
      with str_nat_nonempty show ?thesis by blast
    next
      case False
      from "1.prems" m False
      have "str_nat (m div 10) @ [digit_char (m mod 10)] = str_nat (n div 10) @ [digit_char (n mod 10)]"
        by (subst (asm) str_nat.simps, subst (asm) (2) str_nat.simps) simp
      then have a: "str_nat (m div 10) = str_nat (n div 10)"
        and b: "digits ! (m mod 10) = digits ! (n mod 10)"
        by (simp_all add: digit_char_def)
      from "1.IH"[OF m a] have q: "m div 10 = n div 10" .
      have "m mod 10 < length digits" "n mod 10 < length digits" by (simp_all add: digits_def)
      with b digits_distinct have r: "m mod 10 = n mod 10" by (simp add: nth_eq_iff_index_eq)
      from q r show ?thesis by (metis div_mult_mod_eq)
    qed
  qed
qed

lemma suffixed_inj: "inj (\<lambda>k. original_slug @ ''-'' @ str_nat k)"
  by (rule injI) (simp add: str_nat_inj)

lemma finite_suffixes: "finite {k. dict_has schemas (original_slug @ ''-'' @ str_nat k)}"
proof -
  have "{k. dict_has schemas (original_slug @ ''-'' @ str_nat k)}
        = (\<lambda>k. original_slug @ ''-'' @ str_nat k) -` set (map fst schemas)"
    by (auto simp: dict_has_def)
  then show ?thesis using finite_vimageI[OF _ suffixed_inj] by simp
qed

text \<open>
  The \<open>while slug in schemas\<close> loop of \<open>_generate_domain\<close>, on the variables \<open>slug\<close>,
  \<open>schema\<close> and \<open>counter\<close>. It ends because only finitely many suffixed slugs are keys of
  \<open>schemas\<close>: \<open>dedupe_measure\<close> is the distance of the counter from the last of them.
\<close>

definition dedupe_measure ::
  "(string \<times> schema) list \<times> string \<times> string \<times> schema \<times> nat \<Rightarrow> nat" where
  "dedupe_measure = (\<lambda>(schemas, original_slug, slug, schema, counter).
     (if {k. dict_has schemas (original_slug @ ''-'' @ str_nat k)} = {} then 0
      else Suc (Max {k. dict_has schemas (original_slug @ ''-'' @ str_nat k)})) - counter
     + (if dict_has schemas slug then 1 else 0))"

lemma dedupe_measure_decreases:
  assumes "dict_has schemas slug"
  shows "dedupe_measure (schemas, original_slug, original_slug @ ''-'' @ str_nat counter,
            schema', counter + 1)
         < dedupe_measure (schemas, original_slug, slug, schema, counter)"
proof -
  define S where "S = {k. dict_has schemas (original_slug @ ''-'' @ str_nat k)}"
  define B where "B = (if S = {} then 0 else Suc (Max S))"
  have fin: "finite S" unfolding S_def by (rule finite_suffixes)
  have new: "dedupe_measure (schemas, original_slug, original_slug @ ''-'' @ str_nat counter,
               schema', counter + 1)
             = B - (counter + 1) + (if counter \<in> S then 1 else 0)"
    unfolding dedupe_measure_def prod.case B_def S_def mem_Collect_eq ..
  have old: "dedupe_measure (schemas, original_slug, slug, schema, counter) = B - counter + 1"
    unfolding dedupe_measure_def prod.case B_def S_def using assms by (simp only: if_True)
  have "B - (counter + 1) + (if counter \<in> S then 1 else 0) < B - counter + 1"
  proof (cases "counter \<in> S")
    case True
    then have "counter \<le> Max S" and "S \<noteq> {}" using fin by auto
    then have "counter < B" unfolding B_def by simp
    with True show ?thesis by simp
  next
    case False
    then show ?thesis by simp
  qed
  then show ?thesis unfolding new old .
qed

function dedupe_slug ::
  "(string \<times> schema) list \<Rightarrow> string \<Rightarrow> string \<times> schema \<times> nat \<Rightarrow> string \<times> schema \<times> nat" where
  "dedupe_slug schemas original_slug (slug, schema, counter) =
     (if dict_has schemas slug
      then dedupe_slug schemas original_slug
             (original_slug @ ''-'' @ str_nat counter,
              schema\<lparr>s_slug := original_slug @ ''-'' @ str_nat counter\<rparr>,
              counter + 1)
      else (slug, schema, counter))"
  by pat_completeness auto
termination
proof (relation "measure dedupe_measure")
  show "wf (measure dedupe_measure)" by simp
next
  fix schemas :: "(string \<times> schema) list" and original_slug slug :: string
    and schema :: schema and counter :: nat
  assume "dict_has schemas slug"
  then show "((schemas, original_slug, original_slug @ ''-'' @ str_nat counter,
            schema\<lparr>s_slug := original_slug @ ''-'' @ str_nat counter\<rparr>, counter + 1),
           schemas, original_slug, slug, schema, counter) \<in> measure dedupe_measure"
    unfolding in_measure by (rule dedupe_measure_decreases)
qed

declare dedupe_slug.simps [simp del]

text \<open>The body of the loop over the classes, on the pair \<open>(schemas, schema_slugs)\<close>.\<close>

definition class_step ::
  "generator \<Rightarrow> (int \<Rightarrow> string list option) \<Rightarrow> (string \<times> schema) list \<times> string list
     \<Rightarrow> t_object \<Rightarrow> (string \<times> schema) list \<times> string list" where
  "class_step g local_enums st cls =
     (let (schemas, schema_slugs) = st;
          schema = generate_schema g cls local_enums
      in if schema_items schema \<noteq> [] then
           (let slug = s_slug schema;
                original_slug = slug;
                (slug, schema, counter) = dedupe_slug schemas original_slug (slug, schema, 2)
            in (dict_set schemas slug schema, schema_slugs @ [slug]))
         else (schemas, schema_slugs))"

text \<open>The loop that builds \<open>local_enums\<close> from the enumerations of the domain.\<close>

definition build_local_enums :: "generator \<Rightarrow> t_object list \<Rightarrow> int \<Rightarrow> string list option" where
  "build_local_enums g enumerations =
     foldl (\<lambda>m enum. m(obj_Object_ID enum \<mapsto>
              (case enums (g_db g) (obj_Object_ID enum) of
                 None \<Rightarrow> [] | Some literals \<Rightarrow> literals)))
       Map.empty enumerations"

definition generate_domain :: "nat \<Rightarrow> generator \<Rightarrow> int \<Rightarrow> domain_info \<Rightarrow> config option" where
  "generate_domain limit g pkg_id info =
     (case get_descendant_packages limit (g_db g) pkg_id of
        None \<Rightarrow> None
      | Some descendant_ids \<Rightarrow>
         (let classes = get_classes_in_packages (g_db g) descendant_ids;
              enumerations = get_enumerations_in_packages (g_db g) descendant_ids;
              local_enums = build_local_enums g enumerations;
              (schemas, schema_slugs) = foldl (class_step g local_enums) ([], []) classes;
              register =
                \<lparr>reg_slug = d_slug info,
                 reg_title = ''GGM - '' @ d_name info,
                 reg_version = GGM_VERSION,
                 reg_description = ''Gemeentelijk Gegevensmodel domain: '' @ d_name info,
                 reg_schemas = schema_slugs,
                 reg_source = ''internal''\<rparr>
          in Some
            \<lparr>cfg_openapi = ''3.0.0'',
             cfg_info =
               [(''title'', JStr (''GGM - '' @ d_name info)),
                (''description'',
                 JStr (''OpenRegister configuration for the Gemeentelijk Gegevensmodel (GGM) domain: ''
                       @ d_name info @ ''. '' @ ''Auto-generated from GGM v'' @ GGM_VERSION
                       @ ''.'')),
                (''version'', JStr GGM_VERSION)],
             cfg_x_openregister =
               [(''type'', JStr ''application''),
                (''sourceType'', JStr ''github''),
                (''sourceUrl'', JStr (''https://github.com/'' @ GITHUB_REPO)),
                (''openregister'', JStr ''^v0.2.10''),
                (''github'', JObj [(''repo'', JStr GITHUB_REPO), (''branch'', JStr GITHUB_BRANCH),
                                   (''path'', JStr (d_file info))]),
                (''description'', JStr (''Gemeentelijk Gegevensmodel - '' @ d_name info))],
             cfg_schemas = schemas,
             cfg_registers = [(d_slug info, register)]\<rparr>))"

section \<open>Properties of \<open>slugify\<close>\<close>

definition slug_chars :: "char set" where
  "slug_chars = set ''abcdefghijklmnopqrstuvwxyz0123456789-''"

lemma slug_chars_not_space: "c \<in> slug_chars \<Longrightarrow> \<not> isspace c"
  by (auto simp: slug_chars_def isspace_def ord_def)

lemma slug_chars_lower: "c \<in> slug_chars \<Longrightarrow> lower_char c = c"
  by (auto simp: slug_chars_def lower_char_def ascii_uppercase_def ord_def)

lemma slug_chars_keep:
  "c \<in> slug_chars \<Longrightarrow>
   c \<in> set ascii_lowercase \<or> c \<in> set digits \<or> isspace c \<or> c = CHR ''-''"
  by (auto simp: slug_chars_def ascii_lowercase_def digits_def)

lemma keep_slug_chars:
  "c \<in> set ascii_lowercase \<or> c \<in> set digits \<or> c = CHR ''-'' \<Longrightarrow> c \<in> slug_chars"
  by (auto simp: slug_chars_def ascii_lowercase_def digits_def)

lemma sub_runs_set: "set (sub_runs P r s) \<subseteq> set r \<union> {c \<in> set s. \<not> P c}"
proof (induction P r s rule: sub_runs.induct)
  case (1 P r)
  then show ?case by simp
next
  case (2 P r c cs)
  show ?case
  proof (cases "P c")
    case True
    have "set (dropWhile P cs) \<subseteq> set cs" by (auto dest: set_dropWhileD)
    with 2(1)[OF True] True show ?thesis by auto
  next
    case False
    with 2(2)[OF False] show ?thesis by auto
  qed
qed

lemma sub_runs_id: "\<forall>c \<in> set s. \<not> P c \<Longrightarrow> sub_runs P r s = s"
  by (induction s) auto

lemma dropWhile_head: "dropWhile P xs = y # ys \<Longrightarrow> \<not> P y"
  using hd_dropWhile[of P xs] by auto

lemma sub_runs_no_double:
  "\<not> sublist [h, h] (sub_runs (\<lambda>c. c = h) [h] s)"
proof (induction "\<lambda>c. c = h" "[h]" s rule: sub_runs.induct)
  case 1
  then show ?case by simp
next
  case (2 c cs)
  show ?case
  proof (cases "c = h")
    case True
    note IH = 2(1)[OF True]
    show ?thesis
    proof (cases "dropWhile (\<lambda>c. c = h) cs")
      case Nil
      have "sub_runs (\<lambda>c. c = h) [h] (c # cs) = [h]"
        using True by (simp only: sub_runs.simps Nil simp_thms if_True append_Nil2)
      then show ?thesis by (simp add: sublist_Cons_right)
    next
      case (Cons d ds)
      then have "d \<noteq> h" using dropWhile_head[of "\<lambda>c. c = h" cs d ds] by simp
      with IH Cons True show ?thesis by (simp add: sublist_Cons_right)
    qed
  next
    case False
    with 2(2)[OF False] show ?thesis by (simp add: sublist_Cons_right)
  qed
qed

lemma sub_runs_no_double_id:
  "\<not> sublist [h, h] s \<Longrightarrow> sub_runs (\<lambda>c. c = h) [h] s = s"
proof (induction s)
  case Nil
  then show ?case by simp
next
  case (Cons c cs)
  from Cons.prems have tl: "\<not> sublist [h, h] cs" and hd: "\<not> prefix [h, h] (c # cs)"
    by (simp_all add: sublist_Cons_right)
  show ?case
  proof (cases "c = h")
    case True
    with hd have "dropWhile (\<lambda>c. c = h) cs = cs" by (cases cs) auto
    with True Cons.IH[OF tl] show ?thesis by simp
  next
    case False
    with Cons.IH[OF tl] show ?thesis by simp
  qed
qed

lemma sublist_trans: "sublist xs ys \<Longrightarrow> sublist ys zs \<Longrightarrow> sublist xs zs"
proof -
  assume "sublist xs ys" "sublist ys zs"
  then obtain a b c d where "ys = a @ xs @ b" "zs = c @ ys @ d"
    by (auto simp: sublist_def)
  then have "zs = (c @ a) @ xs @ (b @ d)" by simp
  then show ?thesis unfolding sublist_def by blast
qed

lemma strip_chars_set: "set (strip_chars chars s) \<subseteq> set s"
  unfolding strip_chars_def by (auto dest!: set_dropWhileD)

lemma strip_chars_sublist: "sublist (strip_chars chars s) s"
proof -
  let ?p = "\<lambda>c. c \<in> set chars"
  have "suffix (dropWhile ?p (rev (dropWhile ?p s))) (rev (dropWhile ?p s))"
    by (rule suffix_dropWhile)
  then have "sublist (rev (dropWhile ?p (rev (dropWhile ?p s)))) (dropWhile ?p s)"
    using sublist_rev suffix_imp_sublist by (metis rev_rev_ident)
  moreover have "sublist (dropWhile ?p s) s"
    by (rule suffix_imp_sublist[OF suffix_dropWhile])
  ultimately show ?thesis unfolding strip_chars_def by (rule sublist_trans)
qed

lemma strip_chars_no_suffix: "\<not> suffix [h] (strip_chars [h] s)"
proof
  let ?p = "\<lambda>c. c \<in> set [h]"
  let ?u = "dropWhile ?p (rev (dropWhile ?p s))"
  assume "suffix [h] (strip_chars [h] s)"
  then have "prefix [h] ?u" unfolding strip_chars_def
    by (metis rev.simps(1,2) append_Nil suffix_to_prefix rev_rev_ident)
  then obtain us where "?u = h # us" by (auto simp: prefix_def)
  from dropWhile_head[OF this] show False by simp
qed

lemma strip_chars_no_prefix: "\<not> prefix [h] (strip_chars [h] s)"
proof
  let ?p = "\<lambda>c. c \<in> set [h]"
  let ?t = "dropWhile ?p s"
  assume a: "prefix [h] (strip_chars [h] s)"
  have "rev (dropWhile ?p (rev ?t)) @ rev (takeWhile ?p (rev ?t)) = ?t"
    by (metis rev_append rev_rev_ident takeWhile_dropWhile_id)
  then have "prefix (strip_chars [h] s) ?t" unfolding strip_chars_def
    by (metis prefixI)
  with a have "prefix [h] ?t" by (rule prefix_order.trans)
  then obtain ts where "?t = h # ts" by (auto simp: prefix_def)
  from dropWhile_head[OF this] show False by simp
qed

lemma strip_chars_id:
  "\<not> prefix [h] s \<Longrightarrow> \<not> suffix [h] s \<Longrightarrow> strip_chars [h] s = s"
proof -
  assume p: "\<not> prefix [h] s" and q: "\<not> suffix [h] s"
  from p have 1: "dropWhile (\<lambda>c. c \<in> set [h]) s = s" by (cases s) auto
  from q have "\<not> prefix [h] (rev s)"
    by (metis rev.simps(1,2) append_Nil suffix_to_prefix rev_rev_ident)
  then have 2: "dropWhile (\<lambda>c. c \<in> set [h]) (rev s) = rev s" by (cases "rev s") auto
  show ?thesis unfolding strip_chars_def 1 2 by simp
qed

definition is_slug :: "string \<Rightarrow> bool" where
  "is_slug s = (set s \<subseteq> slug_chars \<and> \<not> prefix ''-'' s \<and> \<not> suffix ''-'' s
                 \<and> \<not> sublist ''--'' s)"

lemma slugify_is_slug: "is_slug (slugify x)"
proof -
  let ?keep = "\<lambda>c. c \<in> set ascii_lowercase \<or> c \<in> set digits \<or> isspace c \<or> c = CHR ''-''"
  let ?a = "filter ?keep (lower x)"
  let ?b = "sub_runs isspace ''-'' ?a"
  let ?c = "sub_runs (\<lambda>c. c = CHR ''-'') ''-'' ?b"
  have s: "slugify x = strip_chars ''-'' ?c" by (simp add: slugify_def)
  have "set ?b \<subseteq> set ''-'' \<union> {c \<in> set ?a. \<not> isspace c}" by (rule sub_runs_set)
  then have b: "set ?b \<subseteq> slug_chars" using keep_slug_chars by auto
  have "set ?c \<subseteq> set ''-'' \<union> {c \<in> set ?b. c \<noteq> CHR ''-''}" by (rule sub_runs_set)
  with b have c: "set ?c \<subseteq> slug_chars" using keep_slug_chars by auto
  have 1: "set (slugify x) \<subseteq> slug_chars"
    unfolding s using strip_chars_set[of "''-''" ?c] c by blast
  have "\<not> sublist ''--'' ?c" by (rule sub_runs_no_double)
  then have 2: "\<not> sublist ''--'' (slugify x)"
    unfolding s using strip_chars_sublist[of "''-''" ?c] sublist_trans by blast
  show ?thesis unfolding is_slug_def
    using 1 2 strip_chars_no_prefix[of "CHR ''-''" ?c] strip_chars_no_suffix[of "CHR ''-''" ?c]
    by (simp add: s)
qed

lemma slugify_fixes_slug: "is_slug s \<Longrightarrow> slugify s = s"
proof -
  assume a: "is_slug s"
  then have cs: "set s \<subseteq> slug_chars" by (simp add: is_slug_def)
  have 1: "lower s = s"
    unfolding lower_def using cs slug_chars_lower by (simp add: map_idI subsetD)
  have 2: "filter (\<lambda>c. c \<in> set ascii_lowercase \<or> c \<in> set digits \<or> isspace c
                        \<or> c = CHR ''-'') s = s"
    using cs slug_chars_keep by (simp add: subsetD)
  have 3: "sub_runs isspace ''-'' s = s"
    using cs slug_chars_not_space by (intro sub_runs_id) auto
  have 4: "sub_runs (\<lambda>c. c = CHR ''-'') ''-'' s = s"
    using a by (intro sub_runs_no_double_id) (simp add: is_slug_def)
  have 5: "strip_chars ''-'' s = s"
    using a by (intro strip_chars_id) (simp_all add: is_slug_def)
  show ?thesis by (simp add: slugify_def 1 2 3 4 5)
qed

text \<open>
  C8. For every input string, \<open>slugify\<close> is idempotent, and its result consists only of
  lowercase letters, digits and hyphens, does not start with a hyphen, does not end with a
  hyphen, and has no two consecutive hyphens.
\<close>

theorem slugify_idempotent_charset:
  "slugify (slugify x) = slugify x
   \<and> set (slugify x) \<subseteq> set ''abcdefghijklmnopqrstuvwxyz0123456789-''
   \<and> \<not> prefix ''-'' (slugify x)
   \<and> \<not> suffix ''-'' (slugify x)
   \<and> \<not> sublist ''--'' (slugify x)"
  using slugify_is_slug[of x] slugify_fixes_slug[of "slugify x"]
  unfolding is_slug_def slug_chars_def by blast

section \<open>Properties of \<open>map_type\<close>\<close>

text \<open>
  C7. The type mapper keeps its precedence and its point mappings: \<open>N10.2\<close> is a number and
  not an integer, \<open>AN10\<close> is a string of at most 10 characters, \<open>varchar(50)\<close> a string of
  at most 50 and \<open>varchar\<close> a string of at most 255.
\<close>

theorem map_type_points:
  "map_type (Some ''N10.2'') 0 = [(''type'', JStr ''number'')]
   \<and> map_type (Some ''N10.2'') 0 \<noteq> [(''type'', JStr ''integer'')]
   \<and> map_type (Some ''AN10'') 0 = [(''type'', JStr ''string''), (''maxLength'', JInt 10)]
   \<and> map_type (Some ''varchar(50)'') 0
       = [(''type'', JStr ''string''), (''maxLength'', JInt 50)]
   \<and> map_type (Some ''varchar'') 0 = [(''type'', JStr ''string''), (''maxLength'', JInt 255)]"
  by code_simp

section \<open>Package subtree expansion\<close>

definition child_rel :: "database \<Rightarrow> (int \<times> int) set" where
  "child_rel db = {(p, c). c \<in> set (package_children db p)}"

definition descendants :: "database \<Rightarrow> int \<Rightarrow> int set" where
  "descendants db root = {q. (root, q) \<in> (child_rel db)\<^sup>*}"

definition cyclic_db :: database where
  "cyclic_db =
     \<lparr>tbl_package = [\<lparr>pkg_Package_ID = 4, pkg_Name = ''0 Bestuur'', pkg_Parent_ID = 4\<rparr>],
      tbl_object = [], tbl_attribute = [], tbl_connector = []\<rparr>"

definition tree_db :: database where
  "tree_db =
     \<lparr>tbl_package = [\<lparr>pkg_Package_ID = 4, pkg_Name = ''0 Bestuur'', pkg_Parent_ID = 3\<rparr>,
                     \<lparr>pkg_Package_ID = 5, pkg_Name = ''Raad'', pkg_Parent_ID = 4\<rparr>,
                     \<lparr>pkg_Package_ID = 6, pkg_Name = ''Griffie'', pkg_Parent_ID = 5\<rparr>,
                     \<lparr>pkg_Package_ID = 7, pkg_Name = ''College'', pkg_Parent_ID = 4\<rparr>],
      tbl_object = [], tbl_attribute = [], tbl_connector = []\<rparr>"

lemma foldl_children:
  "foldl (\<lambda>m row. m(pkg_Parent_ID row := m (pkg_Parent_ID row) @ [pkg_Package_ID row])) m rows p
   = m p @ map pkg_Package_ID (filter (\<lambda>row. pkg_Parent_ID row = p) rows)"
  by (induction rows arbitrary: m) auto

lemma package_children_eq:
  "package_children db p
   = map pkg_Package_ID (filter (\<lambda>row. pkg_Parent_ID row = p) (tbl_package db))"
  unfolding package_children_def by (simp add: foldl_children)

lemma those_map_Some:
  "\<forall>x \<in> set xs. f x = Some (g x) \<Longrightarrow> those (map f xs) = Some (map g xs)"
  by (induction xs) auto

lemma those_map_None: "x \<in> set xs \<Longrightarrow> f x = None \<Longrightarrow> those (map f xs) = None"
  by (induction xs) (auto split: option.splits)

lemma descendants_unfold:
  "descendants db p = insert p (\<Union>c \<in> set (package_children db p). descendants db c)"
proof (intro set_eqI iffI)
  fix q assume "q \<in> descendants db p"
  then have "(p, q) \<in> (child_rel db)\<^sup>*" by (simp add: descendants_def)
  then show "q \<in> insert p (\<Union>c \<in> set (package_children db p). descendants db c)"
    by (cases rule: converse_rtranclE) (auto simp: descendants_def child_rel_def)
next
  fix q assume "q \<in> insert p (\<Union>c \<in> set (package_children db p). descendants db c)"
  then show "q \<in> descendants db p"
    by (auto simp: descendants_def child_rel_def intro: converse_rtrancl_into_rtrancl)
qed

lemma get_descendant_packages_ranked:
  assumes rank: "\<forall>row \<in> set (tbl_package db).
      (root, pkg_Parent_ID row) \<in> (child_rel db)\<^sup>* \<longrightarrow>
      rank (pkg_Package_ID row) < rank (pkg_Parent_ID row)"
  shows "(root, p) \<in> (child_rel db)\<^sup>* \<Longrightarrow> rank p < limit \<Longrightarrow>
         \<exists>result. get_descendant_packages limit db p = Some result
                   \<and> set result = descendants db p"
proof (induction limit arbitrary: p)
  case 0
  then show ?case by simp
next
  case (Suc limit)
  let ?cs = "package_children db p"
  let ?g = "\<lambda>c. the (get_descendant_packages limit db c)"
  have child: "get_descendant_packages limit db c = Some (?g c) \<and> set (?g c) = descendants db c"
    if c: "c \<in> set ?cs" for c
  proof -
    from c obtain row where row: "row \<in> set (tbl_package db)" "pkg_Parent_ID row = p"
      "pkg_Package_ID row = c" unfolding package_children_eq by auto
    from rank row(1) have "(root, pkg_Parent_ID row) \<in> (child_rel db)\<^sup>* \<longrightarrow>
      rank (pkg_Package_ID row) < rank (pkg_Parent_ID row)" by (rule bspec)
    with row(2,3) Suc.prems(1) have "rank c < rank p" by simp
    with Suc.prems(2) have lt: "rank c < limit" by simp
    have "(p, c) \<in> child_rel db" using c by (simp add: child_rel_def)
    with Suc.prems(1) have reach: "(root, c) \<in> (child_rel db)\<^sup>*"
      by (rule rtrancl_into_rtrancl)
    from Suc.IH[OF reach lt] obtain result where
      "get_descendant_packages limit db c = Some result" "set result = descendants db c"
      by blast
    then show ?thesis by simp
  qed
  then have "\<forall>c \<in> set ?cs. get_descendant_packages limit db c = Some (?g c)" by blast
  then have "those (map (get_descendant_packages limit db) ?cs) = Some (map ?g ?cs)"
    by (rule those_map_Some)
  then have res: "get_descendant_packages (Suc limit) db p = Some (p # concat (map ?g ?cs))"
    by simp
  have "set (concat (map ?g ?cs)) = (\<Union>c \<in> set ?cs. set (?g c))" by simp
  also have "\<dots> = (\<Union>c \<in> set ?cs. descendants db c)" using child by blast
  finally have "set (p # concat (map ?g ?cs)) = insert p (\<Union>c \<in> set ?cs. descendants db c)"
    by simp
  also have "\<dots> = descendants db p" by (rule descendants_unfold[symmetric])
  finally show ?case using res by blast
qed

lemma get_descendant_packages_cyclic:
  assumes "(p, q) \<in> (child_rel db)\<^sup>*" and "(q, q) \<in> (child_rel db)\<^sup>+"
  shows "get_descendant_packages limit db p = None"
  using assms(1)
proof (induction limit arbitrary: p)
  case 0
  then show ?case by simp
next
  case (Suc limit)
  have "\<exists>c. (p, c) \<in> child_rel db \<and> (c, q) \<in> (child_rel db)\<^sup>*"
  proof (cases "p = q")
    case True
    from tranclD[OF assms(2)] obtain c where
      "(q, c) \<in> child_rel db" "(c, q) \<in> (child_rel db)\<^sup>*" by blast
    with True show ?thesis by blast
  next
    case False
    with Suc.prems show ?thesis by (auto elim: converse_rtranclE)
  qed
  then obtain c where c: "(p, c) \<in> child_rel db" and cq: "(c, q) \<in> (child_rel db)\<^sup>*"
    by blast
  from c have "c \<in> set (package_children db p)" by (simp add: child_rel_def)
  moreover have "get_descendant_packages limit db c = None" by (rule Suc.IH[OF cq])
  ultimately have "those (map (get_descendant_packages limit db) (package_children db p)) = None"
    by (rule those_map_None)
  then show ?case by simp
qed

text \<open>
  C2 (as amended). The expansion is recursive. When the packages below the root can be
  ranked so that every child ranks below its parent (no cycle is reachable from the root),
  it returns for every recursion budget above the rank of the root, and its result lists
  exactly the root and its descendants. When a package that lies on a cycle is reachable
  from the root, it does not return, whatever the budget.
\<close>

theorem get_descendant_packages_acyclic:
  "((\<forall>row \<in> set (tbl_package db).
        (root, pkg_Parent_ID row) \<in> (child_rel db)\<^sup>* \<longrightarrow>
        rank (pkg_Package_ID row) < rank (pkg_Parent_ID row))
     \<and> rank root < limit \<longrightarrow>
     (\<exists>result. get_descendant_packages limit db root = Some result
                \<and> set result = descendants db root))
   \<and> ((root, q) \<in> (child_rel db)\<^sup>* \<and> (q, q) \<in> (child_rel db)\<^sup>+ \<longrightarrow>
        get_descendant_packages limit db root = None)"
proof (intro conjI impI)
  assume a: "(\<forall>row \<in> set (tbl_package db).
        (root, pkg_Parent_ID row) \<in> (child_rel db)\<^sup>* \<longrightarrow>
        rank (pkg_Package_ID row) < rank (pkg_Parent_ID row))
     \<and> rank root < limit"
  show "\<exists>result. get_descendant_packages limit db root = Some result
                \<and> set result = descendants db root"
    by (rule get_descendant_packages_ranked[OF a[THEN conjunct1] rtrancl.rtrancl_refl
          a[THEN conjunct2]])
next
  assume "(root, q) \<in> (child_rel db)\<^sup>* \<and> (q, q) \<in> (child_rel db)\<^sup>+"
  then show "get_descendant_packages limit db root = None"
    using get_descendant_packages_cyclic by blast
qed

text \<open>
  The tree 4 \<open>\<rightarrow>\<close> (5 \<open>\<rightarrow>\<close> 6), 7, expanded with a budget of three calls, and the package
  that is its own parent, expanded with a budget of a thousand.
\<close>

theorem get_descendant_packages_acyclic_witness:
  "get_descendant_packages 3 tree_db 4 = Some [4, 5, 6, 7]
   \<and> descendants tree_db 4 = {4, 5, 6, 7}
   \<and> (4, 4) \<in> (child_rel cyclic_db)\<^sup>+
   \<and> get_descendant_packages 1000 cyclic_db 4 = None"
proof -
  define rank :: "int \<Rightarrow> nat"
    where "rank = (\<lambda>p. if p = 3 then 3 else if p = 4 then 2 else if p = 5 then 1 else 0)"
  have "\<forall>row \<in> set (tbl_package tree_db).
      rank (pkg_Package_ID row) < rank (pkg_Parent_ID row)"
    by (simp add: tree_db_def rank_def)
  then have ranked: "\<forall>row \<in> set (tbl_package tree_db).
      (4, pkg_Parent_ID row) \<in> (child_rel tree_db)\<^sup>* \<longrightarrow>
      rank (pkg_Package_ID row) < rank (pkg_Parent_ID row)"
    by blast
  have "rank 4 < 3" by (simp add: rank_def)
  with ranked obtain result where
    r: "get_descendant_packages 3 tree_db 4 = Some result"
    and d: "set result = descendants tree_db 4"
    using get_descendant_packages_acyclic[of tree_db 4 rank 3] by blast
  have e: "get_descendant_packages 3 tree_db 4 = Some [4, 5, 6, 7]" by code_simp
  from r e have "result = [4, 5, 6, 7]" by simp
  with d have "descendants tree_db 4 = set [4, 5, 6, 7]" by simp
  then have s: "descendants tree_db 4 = {4, 5, 6, 7}" by (simp only: list.set)
  have "(4, 4) \<in> child_rel cyclic_db"
    by (simp add: child_rel_def package_children_eq cyclic_db_def)
  then have c: "(4, 4) \<in> (child_rel cyclic_db)\<^sup>+" by (rule r_into_trancl)
  have "(4, 4) \<in> (child_rel cyclic_db)\<^sup>*" by (rule rtrancl.rtrancl_refl)
  with c have n: "get_descendant_packages 1000 cyclic_db 4 = None"
    using get_descendant_packages_acyclic[of cyclic_db 4 rank 1000 4] by blast
  from e s c n show ?thesis by blast
qed

lemma cyclic_db_None: "get_descendant_packages limit cyclic_db 4 = None"
proof (induction limit)
  case 0
  then show ?case by simp
next
  case (Suc limit)
  have "package_children cyclic_db 4 = [4]"
    by (simp add: package_children_eq cyclic_db_def)
  with Suc show ?case by simp
qed

text \<open>
  C2, counterexample. A package that is its own parent: every call makes the same call
  again, so no recursion budget is enough.
\<close>

theorem get_descendant_packages_cycle_counterexample:
  "\<not> (\<exists>limit result. get_descendant_packages limit cyclic_db 4 = Some result)"
  by (simp add: cyclic_db_None)

section \<open>Association properties\<close>

text \<open>The other end of an association, seen from the entity \<open>source_obj_id\<close>.\<close>

definition other_end_id :: "t_connector \<Rightarrow> int \<Rightarrow> int" where
  "other_end_id assoc source_obj_id =
     (if con_Start_Object_ID assoc = source_obj_id then con_End_Object_ID assoc
      else con_Start_Object_ID assoc)"

definition other_end_card :: "t_connector \<Rightarrow> int \<Rightarrow> string option" where
  "other_end_card assoc source_obj_id =
     (if con_Start_Object_ID assoc = source_obj_id then con_DestCard assoc
      else con_SourceCard assoc)"

text \<open>
  The cardinality rule in the words of the specification: the three listed to-many strings
  are multiple, the three listed to-one strings are single, any other non-empty string that
  contains \<open>*\<close>, or contains \<open>..\<close> and does not end in \<open>..1\<close>, is multiple, and anything
  else is single.
\<close>

definition spec_is_multiple :: "string option \<Rightarrow> bool" where
  "spec_is_multiple cardinality =
     (case cardinality of
        None \<Rightarrow> False
      | Some s \<Rightarrow>
          if s \<in> set [''0..*'', ''1..*'', ''*''] then True
          else if s \<in> set [''0..1'', ''1'', ''1..1''] then False
          else s \<noteq> [] \<and> (CHR ''*'' \<in> set s \<or> (sublist ''..'' s \<and> \<not> suffix ''..1'' s)))"

definition array_ref :: "string \<Rightarrow> string \<Rightarrow> pydict" where
  "array_ref title target_slug =
     [(''type'', JStr ''array''), (''title'', JStr title),
      (''items'', JObj [(''type'', JStr ''object''), (''$ref'', JStr target_slug)])]"

definition object_ref :: "string \<Rightarrow> string \<Rightarrow> pydict" where
  "object_ref title target_slug =
     [(''type'', JStr ''object''), (''title'', JStr title), (''$ref'', JStr target_slug)]"

lemma map_association_Some:
  assumes "object_slug_map g (other_end_id assoc src) = Some target_slug"
  shows "\<exists>prop_name. map_association g assoc src =
           Some (prop_name,
                 if spec_is_multiple (other_end_card assoc src)
                 then array_ref prop_name target_slug else object_ref prop_name target_slug)"
proof (cases "con_Start_Object_ID assoc = src")
  case True
  with assms have t: "object_slug_map g (con_End_Object_ID assoc) = Some target_slug"
    by (simp add: other_end_id_def)
  show ?thesis
    using True t
    by (cases "con_DestCard assoc")
      (simp_all add: map_association_def other_end_card_def spec_is_multiple_def array_ref_def
        object_ref_def truthy_def or_empty_def Let_def)
next
  case False
  with assms have t: "object_slug_map g (con_Start_Object_ID assoc) = Some target_slug"
    by (simp add: other_end_id_def)
  show ?thesis
    using False t
    by (cases "con_SourceCard assoc")
      (simp_all add: map_association_def other_end_card_def spec_is_multiple_def array_ref_def
        object_ref_def truthy_def or_empty_def Let_def)
qed

lemma map_association_None:
  assumes "object_slug_map g (other_end_id assoc src) = None"
  shows "map_association g assoc src = None"
  using assms by (simp add: map_association_def other_end_id_def Let_def split: if_splits)

section \<open>An example model\<close>

definition demo_db :: database where
  "demo_db =
    \<lparr>tbl_package =
       [\<lparr>pkg_Package_ID = 4, pkg_Name = ''0 Bestuur, Politiek en Ondersteuning'',
         pkg_Parent_ID = 3\<rparr>,
        \<lparr>pkg_Package_ID = 5, pkg_Name = ''Adressen'', pkg_Parent_ID = 4\<rparr>,
        \<lparr>pkg_Package_ID = 900, pkg_Name = ''Overig'', pkg_Parent_ID = 3\<rparr>],
     tbl_object =
       [\<lparr>obj_Object_ID = 10, obj_Name = ''Persoon'', obj_Object_Type = ''Class'',
         obj_Package_ID = 4, obj_Stereotype = Some ''Objecttype'', obj_Note = None,
         obj_ea_guid = ''{10}''\<rparr>,
        \<lparr>obj_Object_ID = 11, obj_Name = ''Adres'', obj_Object_Type = ''Class'',
         obj_Package_ID = 5, obj_Stereotype = Some ''Objecttype'',
         obj_Note = Some ''<p>Een adres</p>'', obj_ea_guid = ''{11}''\<rparr>,
        \<lparr>obj_Object_ID = 12, obj_Name = ''ADRES!!'', obj_Object_Type = ''Class'',
         obj_Package_ID = 5, obj_Stereotype = Some ''Objecttype'', obj_Note = None,
         obj_ea_guid = ''{12}''\<rparr>,
        \<lparr>obj_Object_ID = 13, obj_Name = ''!!!'', obj_Object_Type = ''Class'',
         obj_Package_ID = 4, obj_Stereotype = Some ''Objecttype'', obj_Note = None,
         obj_ea_guid = ''{13}''\<rparr>,
        \<lparr>obj_Object_ID = 50, obj_Name = ''JaNee'', obj_Object_Type = ''Enumeration'',
         obj_Package_ID = 900, obj_Stereotype = None, obj_Note = None,
         obj_ea_guid = ''{50}''\<rparr>],
     tbl_attribute =
       [\<lparr>attr_Object_ID = 10, attr_Name = ''leeftijd'', attr_Type = Some ''N3'',
         attr_Classifier = Some 0, attr_LowerBound = Some ''1'', attr_UpperBound = Some ''1'',
         attr_Notes = None, attr_Length = None, attr_Default = None, attr_Pos = 1\<rparr>,
        \<lparr>attr_Object_ID = 10, attr_Name = ''adressen'', attr_Type = Some ''AN10'',
         attr_Classifier = None, attr_LowerBound = Some ''0'', attr_UpperBound = Some ''1'',
         attr_Notes = None, attr_Length = None, attr_Default = None, attr_Pos = 2\<rparr>,
        \<lparr>attr_Object_ID = 10, attr_Name = ''gehuwd'', attr_Type = Some ''JaNee'',
         attr_Classifier = Some 50, attr_LowerBound = None, attr_UpperBound = None,
         attr_Notes = None, attr_Length = None, attr_Default = None, attr_Pos = 3\<rparr>,
        \<lparr>attr_Object_ID = 11, attr_Name = ''postcode'', attr_Type = Some ''AN6'',
         attr_Classifier = Some 0, attr_LowerBound = Some ''1'', attr_UpperBound = Some ''1'',
         attr_Notes = None, attr_Length = None, attr_Default = None, attr_Pos = 1\<rparr>,
        \<lparr>attr_Object_ID = 50, attr_Name = ''Ja'', attr_Type = None,
         attr_Classifier = None, attr_LowerBound = None, attr_UpperBound = None,
         attr_Notes = None, attr_Length = None, attr_Default = None, attr_Pos = 1\<rparr>,
        \<lparr>attr_Object_ID = 50, attr_Name = ''Nee'', attr_Type = None,
         attr_Classifier = None, attr_LowerBound = None, attr_UpperBound = None,
         attr_Notes = None, attr_Length = None, attr_Default = None, attr_Pos = 2\<rparr>],
     tbl_connector =
       [\<lparr>con_Connector_ID = 1, con_Name = None, con_Connector_Type = ''Association'',
         con_Start_Object_ID = 10, con_End_Object_ID = 11, con_SourceCard = Some ''1'',
         con_DestCard = Some ''1..*'', con_SourceRole = None,
         con_DestRole = Some ''adressen''\<rparr>,
        \<lparr>con_Connector_ID = 2, con_Name = Some ''woont op'',
         con_Connector_Type = ''Association'',
         con_Start_Object_ID = 10, con_End_Object_ID = 11, con_SourceCard = Some ''0..*'',
         con_DestCard = Some ''0..1'', con_SourceRole = None, con_DestRole = None\<rparr>,
        \<lparr>con_Connector_ID = 3, con_Name = None, con_Connector_Type = ''Association'',
         con_Start_Object_ID = 10, con_End_Object_ID = 99, con_SourceCard = Some ''1'',
         con_DestCard = Some ''1..*'', con_SourceRole = None,
         con_DestRole = Some ''onbekend''\<rparr>,
        \<lparr>con_Connector_ID = 4, con_Name = None, con_Connector_Type = ''Aggregation'',
         con_Start_Object_ID = 12, con_End_Object_ID = 10, con_SourceCard = Some ''2..4'',
         con_DestCard = Some ''1'', con_SourceRole = Some ''oude adressen'',
         con_DestRole = None\<rparr>]\<rparr>"

text \<open>The generator that \<open>__init__\<close> builds over \<open>demo_db\<close>.\<close>

definition demo_gen :: generator where
  "demo_gen =
    \<lparr>g_db = demo_db,
     object_domain_map = [10 \<mapsto> 4, 11 \<mapsto> 4, 12 \<mapsto> 4, 13 \<mapsto> 4],
     object_slug_map =
       [10 \<mapsto> ''persoon'', 11 \<mapsto> ''adres'', 12 \<mapsto> ''adres'', 13 \<mapsto> []],
     domain_slug_map = map_of (map (\<lambda>(pkg_id, info). (pkg_id, d_slug info)) DOMAIN_PACKAGES)\<rparr>"

lemma demo_gen_init:
  "map_option (\<lambda>g. (g_db g, map (object_slug_map g) [10, 11, 12, 13, 50, 99],
                      map (object_domain_map g) [10, 11, 12, 13, 50, 99],
                      map (domain_slug_map g) (map fst DOMAIN_PACKAGES)))
     (generator_init 3 demo_db)
   = Some (demo_db, map (object_slug_map demo_gen) [10, 11, 12, 13, 50, 99],
           map (object_domain_map demo_gen) [10, 11, 12, 13, 50, 99],
           map (domain_slug_map demo_gen) (map fst DOMAIN_PACKAGES))"
  by code_simp

definition demo_assoc :: "int \<Rightarrow> t_connector" where
  "demo_assoc n = tbl_connector demo_db ! nat (n - 1)"

text \<open>
  C3. For an association whose other end resolves, the association mapper returns a
  property whose shape follows the cardinality string of the other end: the array form
  \<open>{type: array, title, items: {type: object, $ref: target slug}}\<close> when the rule of the
  specification says multiple, the single form \<open>{type: object, title, $ref: target slug}\<close>
  otherwise; the \<open>$ref\<close> is the bare target slug in both.
\<close>

theorem map_association_shape:
  assumes "object_slug_map g (other_end_id assoc source_obj_id) = Some target_slug"
  shows "\<exists>prop_name. map_association g assoc source_obj_id =
           Some (prop_name,
                 if spec_is_multiple (other_end_card assoc source_obj_id)
                 then [(''type'', JStr ''array''), (''title'', JStr prop_name),
                       (''items'', JObj [(''type'', JStr ''object''),
                                         (''$ref'', JStr target_slug)])]
                 else [(''type'', JStr ''object''), (''title'', JStr prop_name),
                       (''$ref'', JStr target_slug)])"
  using map_association_Some[OF assms] unfolding array_ref_def object_ref_def .

text \<open>
  The cardinalities \<open>1..*\<close>, \<open>0..1\<close> and \<open>2..4\<close> of the example model: array, single, array.
\<close>

theorem map_association_shape_witness:
  "map_association demo_gen (demo_assoc 1) 10
     = Some (''adressen'', array_ref ''adressen'' ''adres'')
   \<and> map_association demo_gen (demo_assoc 2) 10
     = Some (''woontOp'', object_ref ''woontOp'' ''adres'')
   \<and> map_association demo_gen (demo_assoc 4) 10
     = Some (''oudeAdressen'', array_ref ''oudeAdressen'' ''adres'')"
proof -
  have h1: "object_slug_map demo_gen (other_end_id (demo_assoc 1) 10) = Some ''adres''"
    by code_simp
  have h2: "object_slug_map demo_gen (other_end_id (demo_assoc 2) 10) = Some ''adres''"
    by code_simp
  have h4: "object_slug_map demo_gen (other_end_id (demo_assoc 4) 10) = Some ''adres''"
    by code_simp
  have m1: "spec_is_multiple (other_end_card (demo_assoc 1) 10)" by code_simp
  have m2: "\<not> spec_is_multiple (other_end_card (demo_assoc 2) 10)" by code_simp
  have m4: "spec_is_multiple (other_end_card (demo_assoc 4) 10)" by code_simp
  have n1: "map_option fst (map_association demo_gen (demo_assoc 1) 10) = Some ''adressen''"
    by code_simp
  have n2: "map_option fst (map_association demo_gen (demo_assoc 2) 10) = Some ''woontOp''"
    by code_simp
  have n4: "map_option fst (map_association demo_gen (demo_assoc 4) 10) = Some ''oudeAdressen''"
    by code_simp
  from map_association_shape[OF h1] m1 n1
  have 1: "map_association demo_gen (demo_assoc 1) 10
             = Some (''adressen'', array_ref ''adressen'' ''adres'')"
    by (auto simp: array_ref_def)
  from map_association_shape[OF h2] m2 n2
  have 2: "map_association demo_gen (demo_assoc 2) 10
             = Some (''woontOp'', object_ref ''woontOp'' ''adres'')"
    by (auto simp: object_ref_def)
  from map_association_shape[OF h4] m4 n4
  have 4: "map_association demo_gen (demo_assoc 4) 10
             = Some (''oudeAdressen'', array_ref ''oudeAdressen'' ''adres'')"
    by (auto simp: array_ref_def)
  from 1 2 4 show ?thesis by blast
qed

lemma association_step_unresolved:
  "object_slug_map g (other_end_id assoc obj_id) = None \<Longrightarrow>
   association_step g obj_id properties assoc = properties"
  by (simp add: association_step_def map_association_None)

text \<open>
  C5. An association whose other end is absent from \<open>object_slug_map\<close> yields no property:
  the mapper returns nothing, the loop step leaves the properties as they are, and the
  schema's properties are those built from the other associations alone. The functions
  are total: nothing is raised.
\<close>

theorem unresolved_association_dropped:
  assumes "object_slug_map g (other_end_id assoc obj_id) = None"
  shows "map_association g assoc obj_id = None
         \<and> association_step g obj_id properties assoc = properties
         \<and> foldl (association_step g obj_id) properties (before @ assoc # after)
             = foldl (association_step g obj_id) properties (before @ after)"
  using assms by (simp add: map_association_None association_step_unresolved)

text \<open>Association 3 of the example model ends at object 99, which is no known class.\<close>

theorem unresolved_association_dropped_witness:
  "object_slug_map demo_gen (other_end_id (demo_assoc 3) 10) = None
   \<and> map_association demo_gen (demo_assoc 3) 10 = None
   \<and> foldl (association_step demo_gen 10) [] [demo_assoc 2, demo_assoc 3, demo_assoc 4]
       = foldl (association_step demo_gen 10) [] [demo_assoc 2, demo_assoc 4]"
proof -
  have h: "object_slug_map demo_gen (other_end_id (demo_assoc 3) 10) = None" by code_simp
  from unresolved_association_dropped[OF h, of "[]" "[demo_assoc 2]" "[demo_assoc 4]"] h
  show ?thesis by simp
qed

section \<open>Property key collisions\<close>

lemma dict_set_new: "\<not> dict_has d k \<Longrightarrow> dict_set d k v = d @ [(k, v)]"
  by (induction d) (auto simp: dict_has_def)

lemma dict_set_nonempty: "dict_set d k v \<noteq> []"
  by (cases d) (auto split: if_splits)

lemma dict_set_keys: "set (map fst (dict_set d k v)) = insert k (set (map fst d))"
proof (induction d)
  case Nil
  then show ?case by simp
next
  case (Cons a d)
  then show ?case by (cases a) (simp add: insert_commute)
qed

lemma association_step_prefix: "prefix properties (association_step g obj_id properties assoc)"
  by (auto simp: association_step_def dict_set_new split: option.splits)

lemma association_loop_prefix:
  "prefix properties (foldl (association_step g obj_id) properties associations)"
proof (induction associations arbitrary: properties)
  case Nil
  then show ?case by simp
next
  case (Cons a as)
  have "prefix properties (association_step g obj_id properties a)"
    by (rule association_step_prefix)
  moreover have "prefix (association_step g obj_id properties a)
      (foldl (association_step g obj_id) (association_step g obj_id properties a) as)"
    by (rule Cons.IH)
  ultimately show ?case by (simp add: prefix_order.trans)
qed

lemma prefix_dict_get:
  assumes "prefix d d'" and "dict_has d k"
  shows "dict_get d' k = dict_get d k"
proof -
  from assms(1) obtain e where e: "d' = d @ e" by (auto simp: prefix_def)
  from assms(2) obtain v where "map_of d k = Some v"
    by (auto simp: dict_has_def) (metis weak_map_of_SomeI not_None_eq map_of_eq_None_iff fst_conv image_eqI)
  then show ?thesis by (simp add: dict_get_def e map_add_def)
qed

lemma generate_schema_properties:
  "s_properties (generate_schema g cls local_enums)
   = foldl (association_step g (obj_Object_ID cls))
       (fst (foldl (attribute_step g local_enums) ([], [])
               (get_attributes (g_db g) (obj_Object_ID cls))))
       (get_associations_for_object (g_db g) (obj_Object_ID cls))"
  by (simp add: generate_schema_def Let_def split_beta)

lemma generate_schema_required:
  "s_required (generate_schema g cls local_enums)
   = snd (foldl (attribute_step g local_enums) ([], [])
            (get_attributes (g_db g) (obj_Object_ID cls)))"
  by (simp add: generate_schema_def Let_def split_beta)

text \<open>
  C6. The association loop only appends keys that are not yet present: the properties built
  from the attributes stay a prefix of the schema's properties, so every key that an
  attribute has set keeps its attribute-derived value, and an association whose key is
  already present is skipped.
\<close>

theorem association_never_overwrites:
  "prefix properties (foldl (association_step g obj_id) properties associations)
   \<and> (dict_has properties k \<longrightarrow>
        dict_get (foldl (association_step g obj_id) properties associations) k
          = dict_get properties k)
   \<and> (map_association g assoc obj_id = Some (k, prop_def) \<and> dict_has properties k \<longrightarrow>
        association_step g obj_id properties assoc = properties)
   \<and> prefix (fst (foldl (attribute_step g local_enums) ([], [])
                     (get_attributes (g_db g) (obj_Object_ID cls))))
        (s_properties (generate_schema g cls local_enums))"
proof (intro conjI impI)
  show "prefix properties (foldl (association_step g obj_id) properties associations)"
    by (rule association_loop_prefix)
  show "dict_get (foldl (association_step g obj_id) properties associations) k
          = dict_get properties k" if "dict_has properties k"
    using association_loop_prefix that by (rule prefix_dict_get)
  show "association_step g obj_id properties assoc = properties"
    if "map_association g assoc obj_id = Some (k, prop_def) \<and> dict_has properties k"
    using that by (simp add: association_step_def)
  show "prefix (fst (foldl (attribute_step g local_enums) ([], [])
                     (get_attributes (g_db g) (obj_Object_ID cls))))
        (s_properties (generate_schema g cls local_enums))"
    unfolding generate_schema_properties by (rule association_loop_prefix)
qed

definition demo_cls :: "int \<Rightarrow> t_object" where
  "demo_cls n = hd (filter (\<lambda>row. obj_Object_ID row = n) (tbl_object demo_db))"

text \<open>
  In the example model the attribute \<open>adressen\<close> of Persoon and the role of association 1
  have the same key; the property stays the attribute's.
\<close>

theorem association_never_overwrites_witness:
  "dict_has (fst (foldl (attribute_step demo_gen Map.empty) ([], [])
                    (get_attributes demo_db 10))) ''adressen''
   \<and> map_option fst (map_association demo_gen (demo_assoc 1) 10) = Some ''adressen''
   \<and> dict_get (s_properties (generate_schema demo_gen (demo_cls 10) Map.empty)) ''adressen''
       = Some [(''type'', JStr ''string''), (''maxLength'', JInt 10),
               (''title'', JStr ''adressen'')]
   \<and> map fst (s_properties (generate_schema demo_gen (demo_cls 10) Map.empty))
       = [''leeftijd'', ''adressen'', ''gehuwd'', ''woontOp'', ''oudeAdressen'']"
proof -
  let ?attrs = "fst (foldl (attribute_step demo_gen Map.empty) ([], [])
                    (get_attributes demo_db 10))"
  have a: "dict_has ?attrs ''adressen''" by code_simp
  have b: "map_option fst (map_association demo_gen (demo_assoc 1) 10) = Some ''adressen''"
    by code_simp
  have c: "dict_get ?attrs ''adressen''
       = Some [(''type'', JStr ''string''), (''maxLength'', JInt 10),
               (''title'', JStr ''adressen'')]" by code_simp
  have d: "get_attributes (g_db demo_gen) (obj_Object_ID (demo_cls 10)) = get_attributes demo_db 10"
    by code_simp
  have e: "map fst (s_properties (generate_schema demo_gen (demo_cls 10) Map.empty))
       = [''leeftijd'', ''adressen'', ''gehuwd'', ''woontOp'', ''oudeAdressen'']" by code_simp
  have "prefix ?attrs (s_properties (generate_schema demo_gen (demo_cls 10) Map.empty))"
    using association_never_overwrites[of "[]" demo_gen 10 "[]" "[]" "demo_assoc 1" "[]"
        Map.empty "demo_cls 10"] d by simp
  from prefix_dict_get[OF this a] c
  have "dict_get (s_properties (generate_schema demo_gen (demo_cls 10) Map.empty)) ''adressen''
       = Some [(''type'', JStr ''string''), (''maxLength'', JInt 10),
               (''title'', JStr ''adressen'')]" by simp
  with a b e show ?thesis by blast
qed

section \<open>Required attributes\<close>

lemma map_attribute_nonempty: "map_attribute g attr local_enums \<noteq> []"
  by (simp add: map_attribute_def Let_def dict_set_nonempty split: option.splits)

text \<open>
  The condition under which the attribute loop adds a name to \<open>required\<close>, in the words
  of the specification: the lower bound is present and is neither \<open>0\<close> nor the empty string.
\<close>

definition spec_is_required :: "t_attribute \<Rightarrow> bool" where
  "spec_is_required attr = (attr_LowerBound attr \<notin> {None, Some [], Some ''0''})"

lemma attribute_step_eq:
  "attribute_step g local_enums (properties, required) attr =
     (dict_set properties (sanitize_property_name (attr_Name attr))
        (map_attribute g attr local_enums),
      if spec_is_required attr then required @ [sanitize_property_name (attr_Name attr)]
      else required)"
  by (cases "attr_LowerBound attr")
    (auto simp: attribute_step_def Let_def map_attribute_nonempty spec_is_required_def
      truthy_def or_empty_def)

lemma attribute_loop:
  "foldl (attribute_step g local_enums) (properties, required) attrs = (properties', required')
   \<Longrightarrow> required' = required @ map (\<lambda>a. sanitize_property_name (attr_Name a))
                                  (filter spec_is_required attrs)
       \<and> set (map fst properties')
           = set (map fst properties) \<union> (\<lambda>a. sanitize_property_name (attr_Name a)) ` set attrs"
proof (induction attrs arbitrary: properties required)
  case Nil
  then show ?case by simp
next
  case (Cons a attrs)
  let ?n = "sanitize_property_name (attr_Name a)"
  let ?p = "dict_set properties ?n (map_attribute g a local_enums)"
  let ?r = "if spec_is_required a then required @ [?n] else required"
  from Cons.prems have "foldl (attribute_step g local_enums) (?p, ?r) attrs
      = (properties', required')"
    by (simp add: attribute_step_eq)
  from Cons.IH[OF this] have
    r: "required' = ?r @ map (\<lambda>a. sanitize_property_name (attr_Name a))
                          (filter spec_is_required attrs)"
    and k: "set (map fst properties')
           = set (map fst ?p) \<union> (\<lambda>a. sanitize_property_name (attr_Name a)) ` set attrs"
    by simp_all
  from r have "required' = required @ map (\<lambda>a. sanitize_property_name (attr_Name a))
                                  (filter spec_is_required (a # attrs))" by simp
  moreover from k have "set (map fst properties')
      = set (map fst properties) \<union> (\<lambda>a. sanitize_property_name (attr_Name a)) ` set (a # attrs)"
    unfolding dict_set_keys by auto
  ultimately show ?case by blast
qed

text \<open>
  C9. In every generated schema each required name is a key of the properties, and the
  required list names, in attribute order, exactly the attributes whose lower bound is
  present and is neither \<open>0\<close> nor the empty string.
\<close>

theorem required_subset_properties:
  "set (s_required (generate_schema g cls local_enums))
     \<subseteq> set (map fst (s_properties (generate_schema g cls local_enums)))
   \<and> s_required (generate_schema g cls local_enums)
       = map (\<lambda>attr. sanitize_property_name (attr_Name attr))
           (filter (\<lambda>attr. attr_LowerBound attr \<notin> {None, Some [], Some ''0''})
              (get_attributes (g_db g) (obj_Object_ID cls)))"
proof -
  let ?attrs = "get_attributes (g_db g) (obj_Object_ID cls)"
  obtain ps rs where st: "foldl (attribute_step g local_enums) ([], []) ?attrs = (ps, rs)"
    by (cases "foldl (attribute_step g local_enums) ([], []) ?attrs")
  from attribute_loop[OF st] have
    r: "rs = map (\<lambda>a. sanitize_property_name (attr_Name a)) (filter spec_is_required ?attrs)"
    and k: "set (map fst ps) = (\<lambda>a. sanitize_property_name (attr_Name a)) ` set ?attrs"
    by simp_all
  have req: "s_required (generate_schema g cls local_enums) = rs"
    by (simp add: generate_schema_required st)
  have "prefix ps (s_properties (generate_schema g cls local_enums))"
    unfolding generate_schema_properties st[THEN arg_cong, of fst, simplified, symmetric]
    by (rule association_loop_prefix)
  then have "set (map fst ps) \<subseteq> set (map fst (s_properties (generate_schema g cls local_enums)))"
    by (auto simp: prefix_def)
  moreover have "set rs \<subseteq> set (map fst ps)" unfolding r k by auto
  ultimately have "set (s_required (generate_schema g cls local_enums))
     \<subseteq> set (map fst (s_properties (generate_schema g cls local_enums)))"
    unfolding req by blast
  moreover have "s_required (generate_schema g cls local_enums)
       = map (\<lambda>attr. sanitize_property_name (attr_Name attr))
           (filter (\<lambda>attr. attr_LowerBound attr \<notin> {None, Some [], Some ''0''}) ?attrs)"
    unfolding req r spec_is_required_def ..
  ultimately show ?thesis by blast
qed

text \<open>
  Persoon in the example model: \<open>leeftijd\<close> has lower bound 1, \<open>adressen\<close> has lower bound
  0 and \<open>gehuwd\<close> has none.
\<close>

theorem required_subset_properties_witness:
  "s_required (generate_schema demo_gen (demo_cls 10) Map.empty) = [''leeftijd'']
   \<and> ''leeftijd'' \<in> set (map fst (s_properties (generate_schema demo_gen (demo_cls 10) Map.empty)))"
proof -
  have "s_required (generate_schema demo_gen (demo_cls 10) Map.empty) = [''leeftijd'']"
    by code_simp
  with required_subset_properties[of demo_gen "demo_cls 10" Map.empty]
  show ?thesis by auto
qed

section \<open>Enumeration classifiers\<close>

lemma foldl_map_upd:
  "foldl (\<lambda>m k. m(k \<mapsto> f k)) m ks x = (if x \<in> set ks then Some (f x) else m x)"
  by (induction ks arbitrary: m) auto

lemma enums_Some:
  assumes "row \<in> set (tbl_object db)" and "obj_Object_Type row = ''Enumeration''"
  shows "enums db (obj_Object_ID row)
         = Some (map attr_Name (get_attributes db (obj_Object_ID row)))"
proof -
  from assms have "obj_Object_ID row
      \<in> set (map obj_Object_ID
               (filter (\<lambda>row. obj_Object_Type row = ''Enumeration'') (tbl_object db)))"
    by auto
  then show ?thesis
    unfolding enums_def get_attributes_def foldl_map_upd by simp
qed

lemma map_attribute_enum:
  assumes "attr_Classifier attr = Some c" and "c \<noteq> 0" and "enums (g_db g) c = Some literals"
  shows "dict_get (map_attribute g attr local_enums) ''type'' = Some (JStr ''string'')"
    and "dict_get (map_attribute g attr local_enums) ''title'' = Some (JStr (attr_Name attr))"
    and "dict_get (map_attribute g attr local_enums) ''enum''
         = (if literals = [] then None else Some (JList (map JStr literals)))"
  using assms by (simp_all add: map_attribute_def Let_def dict_get_def)

text \<open>
  C10. The attribute mapper never reads the domain-local enumeration map: its result is the
  same for every such map. An attribute whose classifier is the id of any Enumeration
  object of the model, in whatever package, is mapped to a string property that carries
  the names of that object's attribute rows as its enum list (no enum key when there are
  none).
\<close>

theorem enum_resolution_global:
  "map_attribute g attr local_enums = map_attribute g attr other_local_enums
   \<and> (row \<in> set (tbl_object (g_db g)) \<and> obj_Object_Type row = ''Enumeration''
        \<and> obj_Object_ID row \<noteq> 0 \<and> attr_Classifier attr = Some (obj_Object_ID row) \<longrightarrow>
      dict_get (map_attribute g attr local_enums) ''type'' = Some (JStr ''string'')
      \<and> dict_get (map_attribute g attr local_enums) ''title'' = Some (JStr (attr_Name attr))
      \<and> dict_get (map_attribute g attr local_enums) ''enum''
          = (if get_attributes (g_db g) (obj_Object_ID row) = [] then None
             else Some (JList (map (\<lambda>literal. JStr (attr_Name literal))
                                 (get_attributes (g_db g) (obj_Object_ID row))))))"
proof (intro conjI impI)
  show "map_attribute g attr local_enums = map_attribute g attr other_local_enums"
    by (simp add: map_attribute_def)
next
  assume a: "row \<in> set (tbl_object (g_db g)) \<and> obj_Object_Type row = ''Enumeration''
        \<and> obj_Object_ID row \<noteq> 0 \<and> attr_Classifier attr = Some (obj_Object_ID row)"
  then have e: "enums (g_db g) (obj_Object_ID row)
      = Some (map attr_Name (get_attributes (g_db g) (obj_Object_ID row)))"
    by (simp add: enums_Some)
  from a have c: "attr_Classifier attr = Some (obj_Object_ID row)"
    and z: "obj_Object_ID row \<noteq> 0" by simp_all
  show "dict_get (map_attribute g attr local_enums) ''type'' = Some (JStr ''string'')"
    by (rule map_attribute_enum(1)[OF c z e])
  show "dict_get (map_attribute g attr local_enums) ''title'' = Some (JStr (attr_Name attr))"
    by (rule map_attribute_enum(2)[OF c z e])
  show "dict_get (map_attribute g attr local_enums) ''enum''
          = (if get_attributes (g_db g) (obj_Object_ID row) = [] then None
             else Some (JList (map (\<lambda>literal. JStr (attr_Name literal))
                                 (get_attributes (g_db g) (obj_Object_ID row)))))"
    using map_attribute_enum(3)[OF c z e] by (simp add: comp_def)
qed

definition demo_attr :: "nat \<Rightarrow> t_attribute" where
  "demo_attr n = tbl_attribute demo_db ! n"

text \<open>
  In the example model the enumeration JaNee (object 50) lies in package 900, outside
  every domain; the domain of package 4 has no enumeration of its own, and the attribute
  \<open>gehuwd\<close> of Persoon still gets the literals.
\<close>

theorem enum_resolution_global_witness:
  "get_descendant_packages 3 demo_db 4 = Some [4, 5]
   \<and> get_enumerations_in_packages demo_db [4, 5] = []
   \<and> attr_Classifier (demo_attr 2) = Some 50
   \<and> map_attribute demo_gen (demo_attr 2) Map.empty
       = [(''type'', JStr ''string''), (''title'', JStr ''gehuwd''),
          (''enum'', JList [JStr ''Ja'', JStr ''Nee''])]
   \<and> dict_get (map_attribute demo_gen (demo_attr 2) Map.empty) ''enum''
       = Some (JList [JStr ''Ja'', JStr ''Nee''])"
proof -
  have 1: "get_descendant_packages 3 demo_db 4 = Some [4, 5]" by code_simp
  have 2: "get_enumerations_in_packages demo_db [4, 5] = []" by code_simp
  have 3: "attr_Classifier (demo_attr 2) = Some 50" by code_simp
  have 4: "map_attribute demo_gen (demo_attr 2) Map.empty
       = [(''type'', JStr ''string''), (''title'', JStr ''gehuwd''),
          (''enum'', JList [JStr ''Ja'', JStr ''Nee''])]" by code_simp
  have r: "demo_cls 50 \<in> set (tbl_object (g_db demo_gen))
           \<and> obj_Object_Type (demo_cls 50) = ''Enumeration''
           \<and> obj_Object_ID (demo_cls 50) \<noteq> 0
           \<and> attr_Classifier (demo_attr 2) = Some (obj_Object_ID (demo_cls 50))"
    by code_simp
  have l: "map (\<lambda>literal. JStr (attr_Name literal))
             (get_attributes (g_db demo_gen) (obj_Object_ID (demo_cls 50)))
           = [JStr ''Ja'', JStr ''Nee'']" by code_simp
  from enum_resolution_global[of demo_gen "demo_attr 2" Map.empty Map.empty "demo_cls 50"] r
  have "dict_get (map_attribute demo_gen (demo_attr 2) Map.empty) ''enum''
          = (if get_attributes (g_db demo_gen) (obj_Object_ID (demo_cls 50)) = [] then None
             else Some (JList (map (\<lambda>literal. JStr (attr_Name literal))
                                 (get_attributes (g_db demo_gen) (obj_Object_ID (demo_cls 50))))))"
    by blast
  with l have 5: "dict_get (map_attribute demo_gen (demo_attr 2) Map.empty) ''enum''
       = Some (JList [JStr ''Ja'', JStr ''Nee''])"
    by (metis list.simps(3) map_is_Nil_conv)
  from 1 2 3 4 5 show ?thesis by blast
qed

section \<open>Assembling a domain\<close>

lemma dedupe_slug_result:
  "dedupe_slug schemas original_slug (slug, schema, counter) = (slug', schema', counter') \<Longrightarrow>
   \<not> dict_has schemas slug'
   \<and> (if dict_has schemas slug
      then counter < counter'
           \<and> slug' = original_slug @ ''-'' @ str_nat (counter' - 1)
           \<and> schema' = schema\<lparr>s_slug := slug'\<rparr>
           \<and> (\<forall>j. counter \<le> j \<and> j < counter' - 1 \<longrightarrow>
                  dict_has schemas (original_slug @ ''-'' @ str_nat j))
      else slug' = slug \<and> schema' = schema \<and> counter' = counter)"
proof (induction schemas original_slug "(slug, schema, counter)"
    arbitrary: slug schema counter rule: dedupe_slug.induct)
  case (1 schemas original_slug slug schema counter)
  show ?case
  proof (cases "dict_has schemas slug")
    case False
    with "1.prems" show ?thesis by (simp add: dedupe_slug.simps)
  next
    case True
    let ?next = "original_slug @ ''-'' @ str_nat counter"
    from "1.prems" True
    have rec: "dedupe_slug schemas original_slug
                 (?next, schema\<lparr>s_slug := ?next\<rparr>, counter + 1) = (slug', schema', counter')"
      by (simp add: dedupe_slug.simps)
    note IH = "1.hyps"[OF True rec]
    show ?thesis
    proof (cases "dict_has schemas ?next")
      case False
      with IH True show ?thesis by auto
    next
      case has: True
      note ih = IH[unfolded if_P[OF has]]
      note n = ih[THEN conjunct1]
      note lt = ih[THEN conjunct2, THEN conjunct1]
      note s = ih[THEN conjunct2, THEN conjunct2, THEN conjunct1]
      note d = ih[THEN conjunct2, THEN conjunct2, THEN conjunct2, THEN conjunct1]
      note a = ih[THEN conjunct2, THEN conjunct2, THEN conjunct2, THEN conjunct2]
      have "\<forall>j. counter \<le> j \<and> j < counter' - 1 \<longrightarrow>
                  dict_has schemas (original_slug @ ''-'' @ str_nat j)"
      proof (intro allI impI)
        fix j assume j: "counter \<le> j \<and> j < counter' - 1"
        show "dict_has schemas (original_slug @ ''-'' @ str_nat j)"
        proof (cases "j = counter")
          case True
          with has show ?thesis by simp
        next
          case False
          with j have "counter + 1 \<le> j \<and> j < counter' - 1" by simp
          with a show ?thesis by blast
        qed
      qed
      then have all: "\<forall>j. counter \<le> j \<and> j < counter' - 1 \<longrightarrow>
                  dict_has schemas (original_slug @ ''-'' @ str_nat j)" .
      from d have d': "schema' = schema\<lparr>s_slug := slug'\<rparr>" by simp
      from lt have lt': "counter < counter'" by simp
      from n lt' s d' all have "\<not> dict_has schemas slug'
           \<and> (counter < counter'
           \<and> slug' = original_slug @ ''-'' @ str_nat (counter' - 1)
           \<and> schema' = schema\<lparr>s_slug := slug'\<rparr>
           \<and> (\<forall>j. counter \<le> j \<and> j < counter' - 1 \<longrightarrow>
                  dict_has schemas (original_slug @ ''-'' @ str_nat j)))"
        by (intro conjI)
      then show ?thesis unfolding if_P[OF True] .
    qed
  qed
qed

lemma schema_items_nonempty: "schema_items schema \<noteq> []"
  by (simp add: schema_items_def)

lemma generate_schema_slug: "s_slug (generate_schema g cls local_enums) = slugify (obj_Name cls)"
  by (simp add: generate_schema_def Let_def split_beta)

lemma generate_schema_title: "s_title (generate_schema g cls local_enums) = obj_Name cls"
  by (simp add: generate_schema_def Let_def split_beta)

lemma class_step_appends:
  "\<exists>final doc.
     class_step g local_enums (schemas, schema_slugs) cls
       = (schemas @ [(final, doc)], schema_slugs @ [final])
     \<and> s_slug doc = final \<and> s_title doc = obj_Name cls \<and> \<not> dict_has schemas final
     \<and> (\<not> dict_has schemas (slugify (obj_Name cls)) \<longrightarrow> final = slugify (obj_Name cls))
     \<and> (dict_has schemas (slugify (obj_Name cls)) \<longrightarrow>
          (\<exists>k\<ge>2. final = slugify (obj_Name cls) @ ''-'' @ str_nat k
             \<and> (\<forall>j. 2 \<le> j \<and> j < k \<longrightarrow>
                    dict_has schemas (slugify (obj_Name cls) @ ''-'' @ str_nat j))))"
proof -
  let ?base = "slugify (obj_Name cls)"
  let ?schema = "generate_schema g cls local_enums"
  obtain final doc counter where
    d: "dedupe_slug schemas ?base (?base, ?schema, 2) = (final, doc, counter)"
    by (cases "dedupe_slug schemas ?base (?base, ?schema, 2)")
  note r = dedupe_slug_result[OF d]
  from r have fresh: "\<not> dict_has schemas final" by simp
  have step: "class_step g local_enums (schemas, schema_slugs) cls
       = (schemas @ [(final, doc)], schema_slugs @ [final])"
    by (simp add: class_step_def Let_def schema_items_nonempty generate_schema_slug d
        dict_set_new[OF fresh])
  show ?thesis
  proof (cases "dict_has schemas ?base")
    case False
    with r have "final = ?base" "doc = ?schema" by simp_all
    with step fresh False show ?thesis
      by (simp add: generate_schema_slug generate_schema_title)
  next
    case True
    with r have lt: "2 < counter" and f: "final = ?base @ ''-'' @ str_nat (counter - 1)"
      and dd: "doc = ?schema\<lparr>s_slug := final\<rparr>"
      and a: "\<forall>j. 2 \<le> j \<and> j < counter - 1 \<longrightarrow> dict_has schemas (?base @ ''-'' @ str_nat j)"
      by simp_all
    from lt have "2 \<le> counter - 1" by simp
    with f a have "\<exists>k\<ge>2. final = ?base @ ''-'' @ str_nat k
             \<and> (\<forall>j. 2 \<le> j \<and> j < k \<longrightarrow> dict_has schemas (?base @ ''-'' @ str_nat j))"
      by blast
    with step fresh True dd show ?thesis
      by (simp add: generate_schema_title)
  qed
qed

text \<open>
  The invariant of the loop over the classes: the slug list is the list of keys, the keys
  are distinct, and every document is stored under its own slug.
\<close>

definition schemas_inv :: "(string \<times> schema) list \<times> string list \<Rightarrow> bool" where
  "schemas_inv st =
     (snd st = map fst (fst st) \<and> distinct (map fst (fst st))
      \<and> list_all (\<lambda>(key, doc). s_slug doc = key) (fst st))"

lemma class_loop:
  "schemas_inv st \<Longrightarrow>
   schemas_inv (foldl (class_step g local_enums) st classes)
   \<and> map (\<lambda>(key, doc). s_title doc) (fst (foldl (class_step g local_enums) st classes))
       = map (\<lambda>(key, doc). s_title doc) (fst st) @ map obj_Name classes"
proof (induction classes arbitrary: st)
  case Nil
  then show ?case by simp
next
  case (Cons cls classes)
  obtain schemas slugs where st: "st = (schemas, slugs)" by (cases st)
  from class_step_appends[of g local_enums schemas slugs cls] obtain final doc where
    step: "class_step g local_enums (schemas, slugs) cls
             = (schemas @ [(final, doc)], slugs @ [final])"
    and props: "s_slug doc = final" "s_title doc = obj_Name cls" "\<not> dict_has schemas final"
    by blast
  from Cons.prems props have inv: "schemas_inv (schemas @ [(final, doc)], slugs @ [final])"
    by (simp add: schemas_inv_def st dict_has_def)
  from Cons.IH[OF inv] show ?case
    by (simp add: st step props)
qed

lemma generate_domain_Some:
  assumes "get_descendant_packages limit (g_db g) pkg_id = Some descendant_ids"
  shows "\<exists>cfg.
           generate_domain limit g pkg_id info = Some cfg
           \<and> cfg_schemas cfg
               = fst (foldl (class_step g (build_local_enums g
                               (get_enumerations_in_packages (g_db g) descendant_ids))) ([], [])
                        (get_classes_in_packages (g_db g) descendant_ids))
           \<and> map (\<lambda>(slug, register). reg_schemas register) (cfg_registers cfg)
               = [snd (foldl (class_step g (build_local_enums g
                               (get_enumerations_in_packages (g_db g) descendant_ids))) ([], [])
                         (get_classes_in_packages (g_db g) descendant_ids))]"
  using assms by (simp add: generate_domain_def Let_def split_beta)

lemma generate_domain_schemas:
  assumes "generate_domain limit g pkg_id info = Some cfg"
  shows "\<exists>local_enums classes.
           cfg_schemas cfg = fst (foldl (class_step g local_enums) ([], []) classes)"
proof (cases "get_descendant_packages limit (g_db g) pkg_id")
  case None
  with assms show ?thesis by (simp add: generate_domain_def)
next
  case (Some descendant_ids)
  from generate_domain_Some[OF Some, of info] assms show ?thesis by auto
qed

lemma str_nat_2: "str_nat 2 = ''2''"
  by (simp add: str_nat.simps digit_char_def digits_def)

text \<open>The entry of package 4 in \<open>DOMAIN_PACKAGES\<close>.\<close>

definition demo_info :: domain_info where
  "demo_info = snd (hd DOMAIN_PACKAGES)"

text \<open>
  C4. A schema whose base slug is not yet a key is stored under it; one whose base slug is
  taken is stored under the base slug with the first free suffix \<open>-2\<close>, \<open>-3\<close>, ...; the
  slug field of the stored document is its key. So in every generated domain the keys are
  distinct and each document's slug equals its key, and two entities with the same base
  slug get the base slug and the base slug with \<open>-2\<close>.
\<close>

theorem slug_collisions_resolved:
  "(\<exists>final doc.
      class_step g local_enums (schemas, schema_slugs) cls
        = (schemas @ [(final, doc)], schema_slugs @ [final])
      \<and> s_slug doc = final \<and> \<not> dict_has schemas final
      \<and> (\<not> dict_has schemas (slugify (obj_Name cls)) \<longrightarrow> final = slugify (obj_Name cls))
      \<and> (dict_has schemas (slugify (obj_Name cls)) \<longrightarrow>
           (\<exists>k\<ge>2. final = slugify (obj_Name cls) @ ''-'' @ str_nat k
              \<and> (\<forall>j. 2 \<le> j \<and> j < k \<longrightarrow>
                     dict_has schemas (slugify (obj_Name cls) @ ''-'' @ str_nat j)))))
   \<and> (generate_domain limit g pkg_id info = Some cfg \<longrightarrow>
        list_all (\<lambda>(key, doc). s_slug doc = key) (cfg_schemas cfg)
        \<and> distinct (map fst (cfg_schemas cfg)))
   \<and> (slugify (obj_Name first_cls) = slugify (obj_Name second_cls) \<longrightarrow>
        map fst (fst (foldl (class_step g local_enums) ([], []) [first_cls, second_cls]))
          = [slugify (obj_Name first_cls), slugify (obj_Name first_cls) @ ''-2''])"
proof (intro conjI impI)
  show "\<exists>final doc.
      class_step g local_enums (schemas, schema_slugs) cls
        = (schemas @ [(final, doc)], schema_slugs @ [final])
      \<and> s_slug doc = final \<and> \<not> dict_has schemas final
      \<and> (\<not> dict_has schemas (slugify (obj_Name cls)) \<longrightarrow> final = slugify (obj_Name cls))
      \<and> (dict_has schemas (slugify (obj_Name cls)) \<longrightarrow>
           (\<exists>k\<ge>2. final = slugify (obj_Name cls) @ ''-'' @ str_nat k
              \<and> (\<forall>j. 2 \<le> j \<and> j < k \<longrightarrow>
                     dict_has schemas (slugify (obj_Name cls) @ ''-'' @ str_nat j))))"
    using class_step_appends[of g local_enums schemas schema_slugs cls] by blast
next
  assume "generate_domain limit g pkg_id info = Some cfg"
  from generate_domain_schemas[OF this] obtain le classes where
    c: "cfg_schemas cfg = fst (foldl (class_step g le) ([], []) classes)" by blast
  have "schemas_inv ([], [])" by (simp add: schemas_inv_def)
  from class_loop[OF this, of g le classes]
  have inv: "schemas_inv (foldl (class_step g le) ([], []) classes)" by blast
  from inv show "list_all (\<lambda>(key, doc). s_slug doc = key) (cfg_schemas cfg)"
    unfolding c schemas_inv_def by blast
  from inv show "distinct (map fst (cfg_schemas cfg))"
    unfolding c schemas_inv_def by blast
next
  assume eq: "slugify (obj_Name first_cls) = slugify (obj_Name second_cls)"
  let ?s = "slugify (obj_Name first_cls)"
  from class_step_appends[of g local_enums "[]" "[]" first_cls] obtain doc1 where
    s1: "class_step g local_enums ([], []) first_cls = ([(?s, doc1)], [?s])"
    by (auto simp: dict_has_def)
  from class_step_appends[of g local_enums "[(?s, doc1)]" "[?s]" second_cls] eq obtain final doc2 k where
    s2: "class_step g local_enums ([(?s, doc1)], [?s]) second_cls
           = ([(?s, doc1), (final, doc2)], [?s, final])"
    and k: "2 \<le> k" "final = ?s @ ''-'' @ str_nat k"
    and below: "\<forall>j. 2 \<le> j \<and> j < k \<longrightarrow> dict_has [(?s, doc1)] (?s @ ''-'' @ str_nat j)"
    by (auto simp: dict_has_def)
  have "k = 2"
  proof (rule ccontr)
    assume "k \<noteq> 2"
    with k(1) have "2 \<le> (2::nat) \<and> 2 < k" by simp
    with below have "dict_has [(?s, doc1)] (?s @ ''-'' @ str_nat 2)" by blast
    then show False by (simp add: dict_has_def)
  qed
  with k(2) have "final = ?s @ ''-2''" by (simp add: str_nat_2)
  with s1 s2 show "map fst (fst (foldl (class_step g local_enums) ([], []) [first_cls, second_cls]))
          = [?s, ?s @ ''-2'']" by simp
qed

text \<open>
  In the example model the names Adres and ADRES!! both have the slug \<open>adres\<close>.
\<close>

theorem slug_collisions_resolved_witness:
  "slugify (obj_Name (demo_cls 11)) = ''adres''
   \<and> slugify (obj_Name (demo_cls 12)) = ''adres''
   \<and> map fst (fst (foldl (class_step demo_gen Map.empty) ([], []) [demo_cls 11, demo_cls 12]))
       = [''adres'', ''adres-2'']
   \<and> map_option (\<lambda>cfg. map (\<lambda>(key, doc). (key, s_slug doc)) (cfg_schemas cfg))
        (generate_domain 3 demo_gen 4 demo_info)
       = Some [(''persoon'', ''persoon''), (''adres'', ''adres''), (''adres-2'', ''adres-2''),
               ([], [])]"
proof -
  have a: "slugify (obj_Name (demo_cls 11)) = ''adres''" by code_simp
  have b: "slugify (obj_Name (demo_cls 12)) = ''adres''" by code_simp
  have d: "map_option (\<lambda>cfg. map (\<lambda>(key, doc). (key, s_slug doc)) (cfg_schemas cfg))
        (generate_domain 3 demo_gen 4 demo_info)
       = Some [(''persoon'', ''persoon''), (''adres'', ''adres''), (''adres-2'', ''adres-2''),
               ([], [])]" by code_simp
  from a b have "slugify (obj_Name (demo_cls 11)) = slugify (obj_Name (demo_cls 12))" by simp
  with slug_collisions_resolved[where g = demo_gen and local_enums = Map.empty
      and first_cls = "demo_cls 11" and second_cls = "demo_cls 12"]
  have "map fst (fst (foldl (class_step demo_gen Map.empty) ([], []) [demo_cls 11, demo_cls 12]))
          = [slugify (obj_Name (demo_cls 11)), slugify (obj_Name (demo_cls 11)) @ ''-2'']"
    by blast
  with a have c: "map fst (fst (foldl (class_step demo_gen Map.empty) ([], [])
                     [demo_cls 11, demo_cls 12])) = [''adres'', ''adres-2'']" by simp
  from a b c d show ?thesis by blast
qed

section \<open>Rows as the database returns them\<close>

text \<open>
  A value of an SQLite column is NULL, an integer or a text. Two columns are read by the
  source in a way that can raise: the Name of a class, whose \<open>lower\<close> method \<open>slugify\<close>
  calls (\<open>AttributeError\<close> unless it is a \<open>str\<close>), and the Classifier of an attribute,
  which \<open>_map_attribute\<close> passes to \<open>int\<close> (\<open>ValueError\<close> when a text is no integer).
  The rows below carry these two columns as values; the other columns are as before.
\<close>

datatype sql_value = SqlNull | SqlInt int | SqlText string

datatype py_error = RecursionError | AttributeError | ValueError

record raw_object =
  ro_Object_ID :: int
  ro_Name :: sql_value
  ro_Object_Type :: string
  ro_Package_ID :: int
  ro_Stereotype :: "string option"
  ro_Note :: "string option"
  ro_ea_guid :: string

record raw_attribute =
  ra_Object_ID :: int
  ra_Name :: string
  ra_Type :: "string option"
  ra_Classifier :: sql_value
  ra_LowerBound :: "string option"
  ra_UpperBound :: "string option"
  ra_Notes :: "string option"
  ra_Length :: "int option"
  ra_Default :: "string option"
  ra_Pos :: int

record raw_database =
  raw_package :: "t_package list"
  raw_object :: "raw_object list"
  raw_attribute :: "raw_attribute list"
  raw_connector :: "t_connector list"

text \<open>
  The same database with the two columns read as the typed rows hold them: a Name as its
  text, a Classifier as the integer it holds. The caches and queries that read neither
  column (\<open>package_children\<close>, \<open>objects\<close> for the object type, \<open>enums\<close>, the connectors)
  are taken on this view.
\<close>

definition typed_object :: "raw_object \<Rightarrow> t_object" where
  "typed_object row =
     \<lparr>obj_Object_ID = ro_Object_ID row,
      obj_Name = (case ro_Name row of SqlText s \<Rightarrow> s | _ \<Rightarrow> []),
      obj_Object_Type = ro_Object_Type row, obj_Package_ID = ro_Package_ID row,
      obj_Stereotype = ro_Stereotype row, obj_Note = ro_Note row,
      obj_ea_guid = ro_ea_guid row\<rparr>"

definition typed_attribute :: "raw_attribute \<Rightarrow> t_attribute" where
  "typed_attribute row =
     \<lparr>attr_Object_ID = ra_Object_ID row, attr_Name = ra_Name row, attr_Type = ra_Type row,
      attr_Classifier = (case ra_Classifier row of SqlInt n \<Rightarrow> Some n | _ \<Rightarrow> None),
      attr_LowerBound = ra_LowerBound row, attr_UpperBound = ra_UpperBound row,
      attr_Notes = ra_Notes row, attr_Length = ra_Length row, attr_Default = ra_Default row,
      attr_Pos = ra_Pos row\<rparr>"

definition typed_view :: "raw_database \<Rightarrow> database" where
  "typed_view rdb =
     \<lparr>tbl_package = raw_package rdb, tbl_object = map typed_object (raw_object rdb),
      tbl_attribute = map typed_attribute (raw_attribute rdb),
      tbl_connector = raw_connector rdb\<rparr>"

definition get_classes_in_packages_raw :: "raw_database \<Rightarrow> int list \<Rightarrow> raw_object list" where
  "get_classes_in_packages_raw rdb package_ids =
     filter (\<lambda>row. ro_Object_Type row = ''Class'' \<and> ro_Stereotype row = Some ''Objecttype''
                    \<and> ro_Package_ID row \<in> set package_ids) (raw_object rdb)"

definition get_attributes_raw :: "raw_database \<Rightarrow> int \<Rightarrow> raw_attribute list" where
  "get_attributes_raw rdb object_id =
     sort_key ra_Pos (filter (\<lambda>a. ra_Object_ID a = object_id) (raw_attribute rdb))"

text \<open>
  \<open>slugify(name)\<close> on a column value: \<open>name.lower()\<close> exists for a \<open>str\<close> only.
\<close>

definition slugify_value :: "sql_value \<Rightarrow> py_error + string" where
  "slugify_value name =
     (case name of SqlText s \<Rightarrow> Inr (slugify s) | _ \<Rightarrow> Inl AttributeError)"

text \<open>
  The guard \<open>classifier and str(classifier) not in ("0", "")\<close> and the call
  \<open>int(classifier)\<close> of \<open>_map_attribute\<close>: no id when the guard fails, the id when \<open>int\<close>
  returns, \<open>ValueError\<close> when it raises. \<open>py_int\<close> is Python's \<open>int\<close> on a \<open>str\<close>, with
  \<open>None\<close> where it raises.
\<close>

definition read_classifier :: "(string \<Rightarrow> int option) \<Rightarrow> sql_value \<Rightarrow> py_error + int option" where
  "read_classifier py_int classifier =
     (case classifier of
        SqlNull \<Rightarrow> Inr None
      | SqlInt n \<Rightarrow> Inr (if n = 0 then None else Some n)
      | SqlText s \<Rightarrow>
          if s = [] \<or> s = ''0'' then Inr None
          else (case py_int s of None \<Rightarrow> Inl ValueError | Some n \<Rightarrow> Inr (Some n)))"

text \<open>
  \<open>self\<close> over the rows as returned: the database and the three index maps.
\<close>

record raw_generator =
  rg_db :: raw_database
  rg_object_domain_map :: "int \<Rightarrow> int option"
  rg_object_slug_map :: "int \<Rightarrow> string option"
  rg_domain_slug_map :: "int \<Rightarrow> string option"

definition typed_generator :: "raw_generator \<Rightarrow> generator" where
  "typed_generator rg =
     \<lparr>g_db = typed_view (rg_db rg), object_domain_map = rg_object_domain_map rg,
      object_slug_map = rg_object_slug_map rg, domain_slug_map = rg_domain_slug_map rg\<rparr>"

text \<open>\<open>__init__\<close>, where \<open>slugify(cls["Name"])\<close> may raise.\<close>

fun index_classes_raw ::
  "int \<Rightarrow> raw_object list \<Rightarrow> raw_generator \<Rightarrow> py_error + raw_generator" where
  "index_classes_raw pkg_id [] rg = Inr rg"
| "index_classes_raw pkg_id (cls # rest) rg =
     (case slugify_value (ro_Name cls) of
        Inl e \<Rightarrow> Inl e
      | Inr schema_slug \<Rightarrow>
          index_classes_raw pkg_id rest
            (rg\<lparr>rg_object_domain_map := (rg_object_domain_map rg)(ro_Object_ID cls \<mapsto> pkg_id),
                rg_object_slug_map := (rg_object_slug_map rg)(ro_Object_ID cls \<mapsto> schema_slug)\<rparr>))"

fun index_domains_raw ::
  "nat \<Rightarrow> (int \<times> domain_info) list \<Rightarrow> raw_generator \<Rightarrow> py_error + raw_generator" where
  "index_domains_raw limit [] rg = Inr rg"
| "index_domains_raw limit ((pkg_id, info) # rest) rg =
     (let rg = rg\<lparr>rg_domain_slug_map := (rg_domain_slug_map rg)(pkg_id \<mapsto> d_slug info)\<rparr> in
      case get_descendant_packages limit (typed_view (rg_db rg)) pkg_id of
        None \<Rightarrow> Inl RecursionError
      | Some descendant_ids \<Rightarrow>
          (case index_classes_raw pkg_id
                  (get_classes_in_packages_raw (rg_db rg) descendant_ids) rg of
             Inl e \<Rightarrow> Inl e
           | Inr rg \<Rightarrow> index_domains_raw limit rest rg))"

definition generator_init_raw :: "nat \<Rightarrow> raw_database \<Rightarrow> py_error + raw_generator" where
  "generator_init_raw limit rdb =
     index_domains_raw limit DOMAIN_PACKAGES
       \<lparr>rg_db = rdb, rg_object_domain_map = Map.empty, rg_object_slug_map = Map.empty,
        rg_domain_slug_map = Map.empty\<rparr>"

text \<open>\<open>_map_attribute\<close> with the Classifier as returned.\<close>

definition map_attribute_raw ::
  "(string \<Rightarrow> int option) \<Rightarrow> raw_generator \<Rightarrow> raw_attribute
     \<Rightarrow> (int \<Rightarrow> string list option) \<Rightarrow> py_error + pydict" where
  "map_attribute_raw py_int rg attr local_enums =
     (let attr_name = ra_Name attr;
          attr_type = ra_Type attr;
          notes = strip (strip_tags (or_empty (ra_Notes attr)));
          default_val = ra_Default attr;
          standard =
            (let prop = map_type attr_type 0;
                 prop = dict_set prop ''title'' (JStr attr_name);
                 prop = (if notes \<noteq> [] then dict_set prop ''description'' (JStr notes) else prop);
                 prop = (if or_empty default_val \<noteq> [] \<and> strip (or_empty default_val) \<noteq> []
                         then dict_set prop ''default'' (JStr (strip (or_empty default_val)))
                         else prop)
             in prop)
      in case read_classifier py_int (ra_Classifier attr) of
           Inl e \<Rightarrow> Inl e
         | Inr None \<Rightarrow> Inr standard
         | Inr (Some classifier_id) \<Rightarrow>
             (case enums (typed_view (rg_db rg)) classifier_id of
                 Some literals \<Rightarrow>
                   (let prop = [(''type'', JStr ''string''), (''title'', JStr attr_name)];
                        prop = (if notes \<noteq> [] then dict_set prop ''description'' (JStr notes)
                                else prop);
                        prop = (if literals \<noteq> []
                                then dict_set prop ''enum'' (JList (map JStr literals)) else prop)
                    in Inr prop)
               | None \<Rightarrow>
                   (case objects (typed_view (rg_db rg)) classifier_id of
                      Some obj \<Rightarrow>
                        if obj_Object_Type obj = ''DataType'' then
                          (let prop = map_type attr_type 0;
                               prop = dict_set prop ''title'' (JStr attr_name);
                               prop = (if notes \<noteq> []
                                       then dict_set prop ''description'' (JStr notes) else prop)
                           in Inr prop)
                        else Inr standard
                    | None \<Rightarrow> Inr standard)))"

text \<open>The loop over the attributes; it ends at the first attribute that raises.\<close>

fun attributes_loop_raw ::
  "(string \<Rightarrow> int option) \<Rightarrow> raw_generator \<Rightarrow> (int \<Rightarrow> string list option)
     \<Rightarrow> raw_attribute list \<Rightarrow> (string \<times> pydict) list \<times> string list
     \<Rightarrow> py_error + (string \<times> pydict) list \<times> string list" where
  "attributes_loop_raw py_int rg local_enums [] st = Inr st"
| "attributes_loop_raw py_int rg local_enums (attr # rest) st =
     (case map_attribute_raw py_int rg attr local_enums of
        Inl e \<Rightarrow> Inl e
      | Inr prop \<Rightarrow>
          (let (properties, required) = st in
           if prop \<noteq> [] then
             (let prop_name = sanitize_property_name (ra_Name attr);
                  properties = dict_set properties prop_name prop;
                  lower = ra_LowerBound attr;
                  required = (if truthy lower \<and> or_empty lower \<notin> set [''0'', '''']
                              then required @ [prop_name] else required)
              in attributes_loop_raw py_int rg local_enums rest (properties, required))
           else attributes_loop_raw py_int rg local_enums rest (properties, required)))"

text \<open>\<open>_generate_schema\<close> with the rows as returned.\<close>

definition generate_schema_raw ::
  "(string \<Rightarrow> int option) \<Rightarrow> raw_generator \<Rightarrow> raw_object
     \<Rightarrow> (int \<Rightarrow> string list option) \<Rightarrow> py_error + schema" where
  "generate_schema_raw py_int rg cls local_enums =
     (let obj_id = ro_Object_ID cls in
      case ro_Name cls of
        SqlNull \<Rightarrow> Inl AttributeError
      | SqlInt n \<Rightarrow> Inl AttributeError
      | SqlText name \<Rightarrow>
         (let slug = slugify name;
              note = strip (strip_tags (or_empty (ro_Note cls)));
              attributes = get_attributes_raw (rg_db rg) obj_id
          in case attributes_loop_raw py_int rg local_enums attributes ([], []) of
               Inl e \<Rightarrow> Inl e
             | Inr (properties, required) \<Rightarrow>
                (let associations =
                       get_associations_for_object (typed_view (rg_db rg)) obj_id;
                     properties =
                       foldl (association_step (typed_generator rg) obj_id) properties associations;
                     description = (if note \<noteq> [] then note else ''GGM entity: '' @ name);
                     parent_ids = get_generalizations_for_object (typed_view (rg_db rg)) obj_id;
                     parent_names = List.map_filter (rg_object_slug_map rg) parent_ids;
                     description =
                       (if parent_ids \<noteq> [] \<and> parent_names \<noteq> []
                        then description @ '' Extends: '' @ join '', '' parent_names @ ''.''
                        else description)
                 in Inr \<lparr>s_slug = slug, s_title = name, s_version = GGM_VERSION,
                         s_description = description, s_required = required,
                         s_properties = properties, s_searchable = True,
                         s_hardValidation = False\<rparr>)))"

text \<open>The loop over the classes of \<open>_generate_domain\<close>; it ends at the first class that raises.\<close>

fun classes_loop_raw ::
  "(string \<Rightarrow> int option) \<Rightarrow> raw_generator \<Rightarrow> (int \<Rightarrow> string list option)
     \<Rightarrow> raw_object list \<Rightarrow> (string \<times> schema) list \<times> string list
     \<Rightarrow> py_error + (string \<times> schema) list \<times> string list" where
  "classes_loop_raw py_int rg local_enums [] st = Inr st"
| "classes_loop_raw py_int rg local_enums (cls # rest) st =
     (case generate_schema_raw py_int rg cls local_enums of
        Inl e \<Rightarrow> Inl e
      | Inr schema \<Rightarrow>
          (let (schemas, schema_slugs) = st in
           if schema_items schema \<noteq> [] then
             (let slug = s_slug schema;
                  original_slug = slug;
                  (slug, schema, counter) = dedupe_slug schemas original_slug (slug, schema, 2)
              in classes_loop_raw py_int rg local_enums rest
                   (dict_set schemas slug schema, schema_slugs @ [slug]))
           else classes_loop_raw py_int rg local_enums rest (schemas, schema_slugs)))"

definition generate_domain_raw ::
  "nat \<Rightarrow> (string \<Rightarrow> int option) \<Rightarrow> raw_generator \<Rightarrow> int \<Rightarrow> domain_info
     \<Rightarrow> py_error + config" where
  "generate_domain_raw limit py_int rg pkg_id info =
     (case get_descendant_packages limit (typed_view (rg_db rg)) pkg_id of
        None \<Rightarrow> Inl RecursionError
      | Some descendant_ids \<Rightarrow>
         (let classes = get_classes_in_packages_raw (rg_db rg) descendant_ids;
              enumerations = get_enumerations_in_packages (typed_view (rg_db rg)) descendant_ids;
              local_enums = build_local_enums (typed_generator rg) enumerations
          in case classes_loop_raw py_int rg local_enums classes ([], []) of
               Inl e \<Rightarrow> Inl e
             | Inr (schemas, schema_slugs) \<Rightarrow>
                (let register =
                       \<lparr>reg_slug = d_slug info,
                        reg_title = ''GGM - '' @ d_name info,
                        reg_version = GGM_VERSION,
                        reg_description = ''Gemeentelijk Gegevensmodel domain: '' @ d_name info,
                        reg_schemas = schema_slugs,
                        reg_source = ''internal''\<rparr>
                 in Inr
                   \<lparr>cfg_openapi = ''3.0.0'',
                    cfg_info =
                      [(''title'', JStr (''GGM - '' @ d_name info)),
                       (''description'',
                        JStr (''OpenRegister configuration for the Gemeentelijk Gegevensmodel (GGM) domain: ''
                              @ d_name info @ ''. '' @ ''Auto-generated from GGM v'' @ GGM_VERSION
                              @ ''.'')),
                       (''version'', JStr GGM_VERSION)],
                    cfg_x_openregister =
                      [(''type'', JStr ''application''),
                       (''sourceType'', JStr ''github''),
                       (''sourceUrl'', JStr (''https://github.com/'' @ GITHUB_REPO)),
                       (''openregister'', JStr ''^v0.2.10''),
                       (''github'', JObj [(''repo'', JStr GITHUB_REPO),
                                          (''branch'', JStr GITHUB_BRANCH),
                                          (''path'', JStr (d_file info))]),
                       (''description'', JStr (''Gemeentelijk Gegevensmodel - '' @ d_name info))],
                    cfg_schemas = schemas,
                    cfg_registers = [(d_slug info, register)]\<rparr>)))"

section \<open>Every gathered entity gets a schema\<close>

definition is_text :: "sql_value \<Rightarrow> bool" where
  "is_text v = (case v of SqlText s \<Rightarrow> True | _ \<Rightarrow> False)"

text \<open>
  A class row that \<open>_generate_schema\<close> can read: its Name is a text, and \<open>int\<close> accepts the
  Classifier of each of its attributes that passes the guard.
\<close>

definition readable_class :: "(string \<Rightarrow> int option) \<Rightarrow> raw_database \<Rightarrow> raw_object \<Rightarrow> bool" where
  "readable_class py_int rdb cls =
     (is_text (ro_Name cls)
      \<and> list_all (\<lambda>attr. read_classifier py_int (ra_Classifier attr) \<noteq> Inl ValueError)
           (get_attributes_raw rdb (ro_Object_ID cls)))"

lemma read_classifier_cases:
  "read_classifier py_int v = Inl ValueError \<or> (\<exists>c. read_classifier py_int v = Inr c)"
  by (auto simp: read_classifier_def split: sql_value.splits option.splits)

lemma map_attribute_raw_Inr:
  assumes "read_classifier py_int (ra_Classifier attr) \<noteq> Inl ValueError"
  shows "\<exists>prop. map_attribute_raw py_int rg attr local_enums = Inr prop"
proof -
  from assms read_classifier_cases[of py_int "ra_Classifier attr"] obtain c where
    "read_classifier py_int (ra_Classifier attr) = Inr c" by blast
  then show ?thesis
    by (simp add: map_attribute_raw_def Let_def split: option.splits)
qed

lemma attributes_loop_raw_Inr:
  "list_all (\<lambda>attr. read_classifier py_int (ra_Classifier attr) \<noteq> Inl ValueError) attrs \<Longrightarrow>
   \<exists>st'. attributes_loop_raw py_int rg local_enums attrs st = Inr st'"
proof (induction attrs arbitrary: st)
  case Nil
  then show ?case by simp
next
  case (Cons attr attrs)
  from Cons.prems have "read_classifier py_int (ra_Classifier attr) \<noteq> Inl ValueError"
    and rest: "list_all (\<lambda>attr. read_classifier py_int (ra_Classifier attr) \<noteq> Inl ValueError) attrs"
    by simp_all
  from map_attribute_raw_Inr[OF this(1)] obtain mapped where
    p: "map_attribute_raw py_int rg attr local_enums = Inr mapped" by blast
  obtain properties required where st: "st = (properties, required)" by (cases st)
  show ?case
    using Cons.IH[OF rest] by (simp add: p st Let_def)
qed

lemma generate_schema_raw_Inr:
  assumes "ro_Name cls = SqlText name"
    and "list_all (\<lambda>attr. read_classifier py_int (ra_Classifier attr) \<noteq> Inl ValueError)
           (get_attributes_raw (rg_db rg) (ro_Object_ID cls))"
  shows "\<exists>schema. generate_schema_raw py_int rg cls local_enums = Inr schema
                   \<and> s_title schema = name \<and> s_slug schema = slugify name"
proof -
  from attributes_loop_raw_Inr[OF assms(2), of rg local_enums "([], [])"] obtain ps rs where
    "attributes_loop_raw py_int rg local_enums
       (get_attributes_raw (rg_db rg) (ro_Object_ID cls)) ([], []) = Inr (ps, rs)"
    by (metis surj_pair)
  with assms(1) show ?thesis
    by (simp add: generate_schema_raw_def Let_def)
qed

lemma generate_schema_raw_not_text:
  "\<not> is_text (ro_Name cls) \<Longrightarrow> generate_schema_raw py_int rg cls local_enums = Inl AttributeError"
  by (simp add: generate_schema_raw_def is_text_def split: sql_value.splits)

lemma classes_loop_raw_Inr:
  assumes "schemas_inv st"
    and "list_all (readable_class py_int (rg_db rg)) classes"
  shows "\<exists>st'. classes_loop_raw py_int rg local_enums classes st = Inr st'
               \<and> schemas_inv st'
               \<and> map (\<lambda>(key, doc). SqlText (s_title doc)) (fst st')
                   = map (\<lambda>(key, doc). SqlText (s_title doc)) (fst st) @ map ro_Name classes"
  using assms
proof (induction classes arbitrary: st)
  case Nil
  then show ?case by simp
next
  case (Cons cls classes)
  obtain schemas slugs where st: "st = (schemas, slugs)" by (cases st)
  from Cons.prems(2) have ok: "readable_class py_int (rg_db rg) cls"
    and rest: "list_all (readable_class py_int (rg_db rg)) classes" by simp_all
  from ok obtain name where name: "ro_Name cls = SqlText name"
    by (auto simp: readable_class_def is_text_def split: sql_value.splits)
  from ok have "list_all (\<lambda>attr. read_classifier py_int (ra_Classifier attr) \<noteq> Inl ValueError)
           (get_attributes_raw (rg_db rg) (ro_Object_ID cls))"
    by (simp add: readable_class_def)
  from generate_schema_raw_Inr[OF name this, of local_enums] obtain schema where
    g: "generate_schema_raw py_int rg cls local_enums = Inr schema"
    and t: "s_title schema = name" and s: "s_slug schema = slugify name" by blast
  obtain final doc counter where
    d: "dedupe_slug schemas (slugify name) (slugify name, schema, 2) = (final, doc, counter)"
    by (cases "dedupe_slug schemas (slugify name) (slugify name, schema, 2)")
  note r = dedupe_slug_result[OF d]
  from r have fresh: "\<not> dict_has schemas final" by simp
  from r s have slug: "s_slug doc = final" by (auto split: if_splits)
  from r t have title: "s_title doc = name" by (auto split: if_splits)
  have step: "classes_loop_raw py_int rg local_enums (cls # classes) st
      = classes_loop_raw py_int rg local_enums classes
          (schemas @ [(final, doc)], slugs @ [final])"
    by (simp add: st g Let_def schema_items_nonempty s d dict_set_new[OF fresh])
  from Cons.prems(1) fresh slug
  have inv: "schemas_inv (schemas @ [(final, doc)], slugs @ [final])"
    by (simp add: schemas_inv_def st dict_has_def)
  from Cons.IH[OF inv rest] show ?case
    unfolding step by (simp add: st title name)
qed

lemma generate_domain_raw_Inr:
  assumes "get_descendant_packages limit (typed_view (rg_db rg)) pkg_id = Some descendant_ids"
    and "classes_loop_raw py_int rg
           (build_local_enums (typed_generator rg)
              (get_enumerations_in_packages (typed_view (rg_db rg)) descendant_ids))
           (get_classes_in_packages_raw (rg_db rg) descendant_ids) ([], []) = Inr st"
  shows "\<exists>cfg. generate_domain_raw limit py_int rg pkg_id info = Inr cfg
               \<and> cfg_schemas cfg = fst st
               \<and> map (\<lambda>(slug, register). reg_schemas register) (cfg_registers cfg) = [snd st]"
  using assms by (cases st) (simp add: generate_domain_raw_def Let_def)

text \<open>
  C1 (as amended). Take a domain whose package expansion returns and in which every class
  gathered can be read: its Name is a text, and \<open>int\<close> accepts the Classifier of each of
  its attributes that passes the guard. Then the domain is generated and holds one schema
  for every class gathered, in the order of the classes, whatever the text of the name is:
  a class whose name gives an empty slug is not left out. The slug list of the register
  is the list of the keys of the schemas.
\<close>

theorem every_entity_gets_a_schema:
  assumes "get_descendant_packages limit (typed_view (rg_db rg)) pkg_id = Some descendant_ids"
    and "\<forall>cls \<in> set (get_classes_in_packages_raw (rg_db rg) descendant_ids).
           is_text (ro_Name cls)
           \<and> (\<forall>attr \<in> set (get_attributes_raw (rg_db rg) (ro_Object_ID cls)).
                 read_classifier py_int (ra_Classifier attr) \<noteq> Inl ValueError)"
  shows "\<exists>cfg. generate_domain_raw limit py_int rg pkg_id info = Inr cfg
     \<and> map (\<lambda>(key, doc). SqlText (s_title doc)) (cfg_schemas cfg)
         = map ro_Name (get_classes_in_packages_raw (rg_db rg) descendant_ids)
     \<and> map (\<lambda>(slug, register). reg_schemas register) (cfg_registers cfg)
         = [map fst (cfg_schemas cfg)]"
proof -
  let ?le = "build_local_enums (typed_generator rg)
              (get_enumerations_in_packages (typed_view (rg_db rg)) descendant_ids)"
  let ?classes = "get_classes_in_packages_raw (rg_db rg) descendant_ids"
  from assms(2) have ok: "list_all (readable_class py_int (rg_db rg)) ?classes"
    by (simp add: readable_class_def list_all_iff)
  have "schemas_inv ([], [])" by (simp add: schemas_inv_def)
  from classes_loop_raw_Inr[OF this ok, of ?le] obtain st where
    loop: "classes_loop_raw py_int rg ?le ?classes ([], []) = Inr st"
    and inv: "schemas_inv st"
    and titles: "map (\<lambda>(key, doc). SqlText (s_title doc)) (fst st) = map ro_Name ?classes"
    by auto
  from generate_domain_raw_Inr[OF assms(1) loop, of info] obtain cfg where
    all: "generate_domain_raw limit py_int rg pkg_id info = Inr cfg
          \<and> cfg_schemas cfg = fst st
          \<and> map (\<lambda>(slug, register). reg_schemas register) (cfg_registers cfg) = [snd st]" ..
  note c = all[THEN conjunct1]
  note s = all[THEN conjunct2, THEN conjunct1]
  note r = all[THEN conjunct2, THEN conjunct2]
  from inv have "snd st = map fst (fst st)" by (simp add: schemas_inv_def)
  with r s have "map (\<lambda>(slug, register). reg_schemas register) (cfg_registers cfg)
         = [map fst (cfg_schemas cfg)]" by simp
  with c titles s show ?thesis by auto
qed

section \<open>The typed rows as a special case\<close>

text \<open>
  A database of typed rows is the database of returned rows in which every Name is a text
  and every Classifier is NULL or an integer. On it nothing raises, and the functions on
  returned rows give what the functions on typed rows give.
\<close>

definition raw_of_object :: "t_object \<Rightarrow> raw_object" where
  "raw_of_object row =
     \<lparr>ro_Object_ID = obj_Object_ID row, ro_Name = SqlText (obj_Name row),
      ro_Object_Type = obj_Object_Type row, ro_Package_ID = obj_Package_ID row,
      ro_Stereotype = obj_Stereotype row, ro_Note = obj_Note row,
      ro_ea_guid = obj_ea_guid row\<rparr>"

definition raw_of_attribute :: "t_attribute \<Rightarrow> raw_attribute" where
  "raw_of_attribute row =
     \<lparr>ra_Object_ID = attr_Object_ID row, ra_Name = attr_Name row, ra_Type = attr_Type row,
      ra_Classifier = (case attr_Classifier row of None \<Rightarrow> SqlNull | Some n \<Rightarrow> SqlInt n),
      ra_LowerBound = attr_LowerBound row, ra_UpperBound = attr_UpperBound row,
      ra_Notes = attr_Notes row, ra_Length = attr_Length row, ra_Default = attr_Default row,
      ra_Pos = attr_Pos row\<rparr>"

definition raw_of_database :: "database \<Rightarrow> raw_database" where
  "raw_of_database db =
     \<lparr>raw_package = tbl_package db, raw_object = map raw_of_object (tbl_object db),
      raw_attribute = map raw_of_attribute (tbl_attribute db),
      raw_connector = tbl_connector db\<rparr>"

definition raw_of_generator :: "generator \<Rightarrow> raw_generator" where
  "raw_of_generator g =
     \<lparr>rg_db = raw_of_database (g_db g), rg_object_domain_map = object_domain_map g,
      rg_object_slug_map = object_slug_map g, rg_domain_slug_map = domain_slug_map g\<rparr>"

lemma typed_of_raw_object: "typed_object (raw_of_object row) = row"
  by (simp add: typed_object_def raw_of_object_def)

lemma typed_of_raw_attribute: "typed_attribute (raw_of_attribute row) = row"
  by (cases "attr_Classifier row") (simp_all add: typed_attribute_def raw_of_attribute_def)

lemma typed_view_raw: "typed_view (raw_of_database db) = db"
  by (simp add: typed_view_def raw_of_database_def comp_def typed_of_raw_object
      typed_of_raw_attribute)

lemma typed_generator_raw: "typed_generator (raw_of_generator g) = g"
  by (simp add: typed_generator_def raw_of_generator_def typed_view_raw)

lemma insort_key_raw_of_attribute:
  "insort_key ra_Pos (raw_of_attribute a) (map raw_of_attribute xs)
   = map raw_of_attribute (insort_key attr_Pos a xs)"
  by (induction xs) (simp_all add: raw_of_attribute_def)

lemma sort_key_raw_of_attribute:
  "sort_key ra_Pos (map raw_of_attribute xs) = map raw_of_attribute (sort_key attr_Pos xs)"
  by (induction xs) (simp_all add: insort_key_raw_of_attribute)

lemma get_attributes_raw_of:
  "get_attributes_raw (raw_of_database db) object_id
   = map raw_of_attribute (get_attributes db object_id)"
proof -
  have "filter (\<lambda>a. ra_Object_ID a = object_id) (map raw_of_attribute (tbl_attribute db))
        = map raw_of_attribute (filter (\<lambda>a. attr_Object_ID a = object_id) (tbl_attribute db))"
    by (induction "tbl_attribute db") (simp_all add: filter_map comp_def raw_of_attribute_def)
  then show ?thesis
    by (simp only: get_attributes_raw_def get_attributes_def raw_of_database_def
        raw_database.simps sort_key_raw_of_attribute)
qed

lemma get_classes_raw_of:
  "get_classes_in_packages_raw (raw_of_database db) package_ids
   = map raw_of_object (get_classes_in_packages db package_ids)"
  by (simp add: get_classes_in_packages_raw_def get_classes_in_packages_def raw_of_database_def
      filter_map comp_def raw_of_object_def)

lemma map_attribute_raw_of:
  "map_attribute_raw py_int (raw_of_generator g) (raw_of_attribute attr) local_enums
   = Inr (map_attribute g attr local_enums)"
proof -
  have db: "typed_view (rg_db (raw_of_generator g)) = g_db g"
    by (simp add: raw_of_generator_def typed_view_raw)
  show ?thesis
    by (cases "attr_Classifier attr")
      (simp_all add: map_attribute_raw_def map_attribute_def read_classifier_def db Let_def
        raw_of_attribute_def split: option.splits)
qed

lemma attributes_loop_raw_of:
  "attributes_loop_raw py_int (raw_of_generator g) local_enums (map raw_of_attribute attrs) st
   = Inr (foldl (attribute_step g local_enums) st attrs)"
proof (induction attrs arbitrary: st)
  case Nil
  then show ?case by simp
next
  case (Cons attr attrs)
  obtain properties required where st: "st = (properties, required)" by (cases st)
  have names: "ra_Name (raw_of_attribute attr) = attr_Name attr"
    "ra_LowerBound (raw_of_attribute attr) = attr_LowerBound attr"
    by (simp_all add: raw_of_attribute_def)
  show ?case
    by (simp add: map_attribute_raw_of st Let_def names Cons.IH attribute_step_def)
qed

lemma generate_schema_raw_of:
  "generate_schema_raw py_int (raw_of_generator g) (raw_of_object cls) local_enums
   = Inr (generate_schema g cls local_enums)"
proof -
  have db: "typed_view (rg_db (raw_of_generator g)) = g_db g"
    and rdb: "rg_db (raw_of_generator g) = raw_of_database (g_db g)"
    and slugs: "rg_object_slug_map (raw_of_generator g) = object_slug_map g"
    by (simp_all add: raw_of_generator_def typed_view_raw)
  have cols: "ro_Name (raw_of_object cls) = SqlText (obj_Name cls)"
    "ro_Object_ID (raw_of_object cls) = obj_Object_ID cls"
    "ro_Note (raw_of_object cls) = obj_Note cls"
    by (simp_all add: raw_of_object_def)
  obtain ps rs where st: "foldl (attribute_step g local_enums) ([], [])
      (get_attributes (g_db g) (obj_Object_ID cls)) = (ps, rs)"
    by (cases "foldl (attribute_step g local_enums) ([], [])
      (get_attributes (g_db g) (obj_Object_ID cls))")
  show ?thesis
    by (simp add: generate_schema_raw_def generate_schema_def Let_def cols rdb slugs
        typed_view_raw get_attributes_raw_of attributes_loop_raw_of typed_generator_raw st)
qed

lemma classes_loop_raw_of:
  "classes_loop_raw py_int (raw_of_generator g) local_enums (map raw_of_object classes) st
   = Inr (foldl (class_step g local_enums) st classes)"
proof (induction classes arbitrary: st)
  case Nil
  then show ?case by simp
next
  case (Cons cls classes)
  obtain schemas slugs where st: "st = (schemas, slugs)" by (cases st)
  show ?case
    by (simp add: generate_schema_raw_of st Let_def Cons.IH class_step_def split_beta)
qed

lemma generate_domain_raw_of:
  "generate_domain_raw limit py_int (raw_of_generator g) pkg_id info
   = (case generate_domain limit g pkg_id info of
        None \<Rightarrow> Inl RecursionError | Some cfg \<Rightarrow> Inr cfg)"
proof -
  have db: "typed_view (rg_db (raw_of_generator g)) = g_db g"
    and rdb: "rg_db (raw_of_generator g) = raw_of_database (g_db g)"
    by (simp_all add: raw_of_generator_def typed_view_raw)
  show ?thesis
    by (cases "get_descendant_packages limit (g_db g) pkg_id")
      (simp_all add: generate_domain_raw_def generate_domain_def rdb typed_view_raw Let_def
        get_classes_raw_of classes_loop_raw_of typed_generator_raw split_beta)
qed

text \<open>
  The example model as returned rows: the Classifier of \<open>gehuwd\<close> is the text \<open>50\<close>, and
  a class without a Name lies in package 900, outside every domain. \<open>demo_int\<close> reads a text
  of decimal digits, as Python's \<open>int\<close> does.
\<close>

definition demo_int :: "string \<Rightarrow> int option" where
  "demo_int s = (if s \<noteq> [] \<and> list_all is_digit s then Some (int_of_digits s) else None)"

definition raw_demo_db :: raw_database where
  "raw_demo_db =
     \<lparr>raw_package = tbl_package demo_db,
      raw_object =
        map raw_of_object (tbl_object demo_db)
        @ [\<lparr>ro_Object_ID = 60, ro_Name = SqlNull, ro_Object_Type = ''Class'',
             ro_Package_ID = 900, ro_Stereotype = Some ''Objecttype'', ro_Note = None,
             ro_ea_guid = ''{60}''\<rparr>],
      raw_attribute =
        map (\<lambda>row. if ra_Name row = ''gehuwd'' then row\<lparr>ra_Classifier := SqlText ''50''\<rparr>
                     else row)
          (map raw_of_attribute (tbl_attribute demo_db)),
      raw_connector = tbl_connector demo_db\<rparr>"

definition raw_demo_gen :: raw_generator where
  "raw_demo_gen = (raw_of_generator demo_gen)\<lparr>rg_db := raw_demo_db\<rparr>"

theorem every_entity_gets_a_schema_witness:
  "get_descendant_packages 3 (typed_view (rg_db raw_demo_gen)) 4 = Some [4, 5]
   \<and> map ro_Name (get_classes_in_packages_raw (rg_db raw_demo_gen) [4, 5])
       = [SqlText ''Persoon'', SqlText ''Adres'', SqlText ''ADRES!!'', SqlText ''!!!'']
   \<and> (case generate_domain_raw 3 demo_int raw_demo_gen 4 demo_info of
         Inl e \<Rightarrow> []
       | Inr cfg \<Rightarrow> map (\<lambda>(key, doc). SqlText (s_title doc)) (cfg_schemas cfg))
       = [SqlText ''Persoon'', SqlText ''Adres'', SqlText ''ADRES!!'', SqlText ''!!!'']
   \<and> (case generate_domain_raw 3 demo_int raw_demo_gen 4 demo_info of
         Inl e \<Rightarrow> []
       | Inr cfg \<Rightarrow> map fst (cfg_schemas cfg))
       = [''persoon'', ''adres'', ''adres-2'', []]"
proof -
  have a: "get_descendant_packages 3 (typed_view (rg_db raw_demo_gen)) 4 = Some [4, 5]"
    by code_simp
  have b: "map ro_Name (get_classes_in_packages_raw (rg_db raw_demo_gen) [4, 5])
       = [SqlText ''Persoon'', SqlText ''Adres'', SqlText ''ADRES!!'', SqlText ''!!!'']"
    by code_simp
  have h: "\<forall>cls \<in> set (get_classes_in_packages_raw (rg_db raw_demo_gen) [4, 5]).
           is_text (ro_Name cls)
           \<and> (\<forall>attr \<in> set (get_attributes_raw (rg_db raw_demo_gen) (ro_Object_ID cls)).
                 read_classifier demo_int (ra_Classifier attr) \<noteq> Inl ValueError)"
    by code_simp
  have k: "(case generate_domain_raw 3 demo_int raw_demo_gen 4 demo_info of
         Inl e \<Rightarrow> []
       | Inr cfg \<Rightarrow> map fst (cfg_schemas cfg))
       = [''persoon'', ''adres'', ''adres-2'', []]"
    by code_simp
  from every_entity_gets_a_schema[OF a h, of demo_info] obtain cfg where
    all: "generate_domain_raw 3 demo_int raw_demo_gen 4 demo_info = Inr cfg
     \<and> map (\<lambda>(key, doc). SqlText (s_title doc)) (cfg_schemas cfg)
         = map ro_Name (get_classes_in_packages_raw (rg_db raw_demo_gen) [4, 5])
     \<and> map (\<lambda>(slug, register). reg_schemas register) (cfg_registers cfg)
         = [map fst (cfg_schemas cfg)]" ..
  note c = all[THEN conjunct1]
  note t = all[THEN conjunct2, THEN conjunct1]
  from c t b have "(case generate_domain_raw 3 demo_int raw_demo_gen 4 demo_info of
         Inl e \<Rightarrow> []
       | Inr cfg \<Rightarrow> map (\<lambda>(key, doc). SqlText (s_title doc)) (cfg_schemas cfg))
       = [SqlText ''Persoon'', SqlText ''Adres'', SqlText ''ADRES!!'', SqlText ''!!!'']"
    by simp
  with a b k show ?thesis by blast
qed

text \<open>
  The two reads that raise. With the class without a Name moved into package 5, both
  \<open>__init__\<close> and the generation of the domain of package 4 end in \<open>AttributeError\<close>; with
  the text \<open>JaNee\<close> as the Classifier of \<open>gehuwd\<close>, the generation ends in \<open>ValueError\<close>.
\<close>

definition null_name_db :: raw_database where
  "null_name_db =
     raw_demo_db\<lparr>raw_object :=
       map (\<lambda>row. if ro_Object_ID row = 60 then row\<lparr>ro_Package_ID := 5\<rparr> else row)
         (raw_object raw_demo_db)\<rparr>"

definition text_classifier_db :: raw_database where
  "text_classifier_db =
     raw_demo_db\<lparr>raw_attribute :=
       map (\<lambda>row. if ra_Name row = ''gehuwd'' then row\<lparr>ra_Classifier := SqlText ''JaNee''\<rparr>
                    else row)
         (raw_attribute raw_demo_db)\<rparr>"

lemma unreadable_rows_raise:
  "(case generator_init_raw 3 null_name_db of Inl e \<Rightarrow> Some e | Inr rg \<Rightarrow> None)
     = Some AttributeError
   \<and> generate_domain_raw 3 demo_int (raw_demo_gen\<lparr>rg_db := null_name_db\<rparr>) 4 demo_info
       = Inl AttributeError
   \<and> generate_domain_raw 3 demo_int (raw_demo_gen\<lparr>rg_db := text_classifier_db\<rparr>) 4 demo_info
       = Inl ValueError"
  by code_simp

text \<open>
  C1, counterexample. The class of the example model named \<open>!!!\<close> has an empty slug and an
  empty property name; it is gathered for the domain of package 4, and its schema is
  emitted under the empty key, which is also in the slug list of the register.
\<close>

theorem empty_name_entity_emitted_counterexample:
  "slugify (obj_Name (demo_cls 13)) = []
   \<and> sanitize_property_name (obj_Name (demo_cls 13)) = []
   \<and> map obj_Object_ID (get_classes_in_packages demo_db [4, 5]) = [10, 11, 12, 13]
   \<and> map_option
        (\<lambda>cfg. (map (\<lambda>(key, doc). (key, s_title doc)) (cfg_schemas cfg),
                 map (\<lambda>(slug, register). reg_schemas register) (cfg_registers cfg)))
        (generate_domain 3 demo_gen 4 demo_info)
       = Some ([(''persoon'', ''Persoon''), (''adres'', ''Adres''), (''adres-2'', ''ADRES!!''),
                ([], ''!!!'')],
               [[''persoon'', ''adres'', ''adres-2'', []]])"
  by code_simp

end
